theory Spec2Isabelle
  imports Complex_Main
begin

section \<open>HR data cleaning pipeline: data model\<close>

text \<open>
  The program is \<^verbatim>\<open>src/pipeline.py\<close>, a pandas script. A cell of the table is a
  missing value (\<^verbatim>\<open>NaN\<close>, \<^verbatim>\<open>None\<close>, \<^verbatim>\<open>NaT\<close>), a number or a text.
  The number of a cell is a finite float64 value, hence a rational. What the script
  computes from such numbers (a mean, a quantile, a difference) is rounded: these
  operations are parameters of the model.
\<close>

datatype cell = Null | Num rat | Str string

text \<open>
  A DataFrame: the row labels (\<^verbatim>\<open>df.index\<close>) and the columns in their order, each
  column holding one cell per row. \<^verbatim>\<open>read_csv\<close> labels the rows \<open>0, 1, 2, \<dots>\<close>, and
  \<^verbatim>\<open>drop_duplicates\<close> keeps the labels of the rows it keeps.
\<close>

record dataframe =
  index :: "nat list"
  columns :: "(string \<times> cell list) list"

text \<open>What a rule's function receives: \<^verbatim>\<open>df[cols[0]]\<close> (a Series) or \<^verbatim>\<open>df\<close>.\<close>

datatype pandas_obj = Series "cell list" | DataFrame dataframe

text \<open>The exceptions of the model; all of them are subclasses of \<^verbatim>\<open>Exception\<close>.\<close>

datatype error = KeyError | TypeError | IndexError | AttributeError | ValueError

text \<open>
  An entry of the list \<^verbatim>\<open>rules\<close>: \<^verbatim>\<open>(rule_name, rule_func, cols, message)\<close>. The
  function returns a mask, one verdict per row (\<open>None\<close> is a missing verdict), or raises.
\<close>

record rule =
  rule_name :: string
  rule_func :: "pandas_obj \<Rightarrow> error + bool option list"
  rule_cols :: "string list"
  rule_message :: string

text \<open>The dictionary appended to \<^verbatim>\<open>violations\<close>.\<close>

record violation =
  v_index :: nat
  v_EmpID :: "cell option"
  v_rule :: string
  v_columns :: string
  v_message :: string
  v_values :: "(string \<times> cell) list"

text \<open>The state of the validation stage: the frame and the list \<^verbatim>\<open>violations\<close>.\<close>

record vstate =
  st_df :: dataframe
  st_violations :: "violation list"

section \<open>DataFrame access\<close>

definition column_names :: "dataframe \<Rightarrow> string list" where
  "column_names df = map fst (columns df)"

text \<open>\<^verbatim>\<open>df[c]\<close>: the column, or \<^verbatim>\<open>KeyError\<close>.\<close>

definition getitem :: "dataframe \<Rightarrow> string \<Rightarrow> error + cell list" where
  "getitem df c = (case map_of (columns df) c of None \<Rightarrow> Inl KeyError | Some xs \<Rightarrow> Inr xs)"

text \<open>
  \<^verbatim>\<open>df.at[idx, c]\<close>: the cell of column \<open>c\<close> at the row labelled \<open>idx\<close>. The loop
  calls it only with a label taken from \<^verbatim>\<open>df.index\<close> and a column that is present;
  elsewhere the model answers \<open>Null\<close>.
\<close>

definition df_at :: "dataframe \<Rightarrow> nat \<Rightarrow> string \<Rightarrow> cell" where
  "df_at df idx c =
     (case map_of (columns df) c of
        None \<Rightarrow> Null
      | Some xs \<Rightarrow> (case map_of (zip (index df) xs) idx of None \<Rightarrow> Null | Some v \<Rightarrow> v))"

text \<open>\<^verbatim>\<open>df.loc[idx, cols].to_dict()\<close>\<close>

definition loc_to_dict :: "dataframe \<Rightarrow> nat \<Rightarrow> string list \<Rightarrow> (string \<times> cell) list" where
  "loc_to_dict df idx cols = map (\<lambda>c. (c, df_at df idx c)) cols"

text \<open>\<^verbatim>\<open>",".join(cols)\<close>\<close>

fun join_comma :: "string list \<Rightarrow> string" where
  "join_comma [] = []"
| "join_comma [c] = c"
| "join_comma (c # d # cs) = c @ '','' @ join_comma (d # cs)"

section \<open>The validation loop\<close>

text \<open>\<^verbatim>\<open>mask.fillna(False)\<close>: a missing verdict becomes \<open>False\<close>.\<close>

definition fillna_False :: "bool option list \<Rightarrow> bool list" where
  "fillna_False msk = map (\<lambda>v. case v of None \<Rightarrow> False | Some b \<Rightarrow> b) msk"

text \<open>
  \<^verbatim>\<open>df.index[~m]\<close>: the labels at the positions where \<open>m\<close> is false. Indexing with a
  boolean array of another length raises \<^verbatim>\<open>IndexError\<close>.
\<close>

definition index_where_not :: "nat list \<Rightarrow> bool list \<Rightarrow> error + nat list" where
  "index_where_not idx m =
     (if length m \<noteq> length idx then Inl IndexError
      else Inr (map fst (filter (\<lambda>(i, b). \<not> b) (zip idx m))))"

text \<open>The argument of the call: \<^verbatim>\<open>df[cols[0]] if len(cols)==1 else df\<close>.\<close>

definition rule_input :: "dataframe \<Rightarrow> rule \<Rightarrow> error + pandas_obj" where
  "rule_input df r =
     (if length (rule_cols r) = 1
      then (case getitem df (hd (rule_cols r)) of Inl e \<Rightarrow> Inl e | Inr s \<Rightarrow> Inr (Series s))
      else Inr (DataFrame df))"

text \<open>
  The body of the \<^verbatim>\<open>try\<close>:
  \<^verbatim>\<open>mask = rule_func(df[cols[0]] if len(cols)==1 else df)\<close>,
  \<^verbatim>\<open>failed = df.index[~mask.fillna(False)]\<close>.
\<close>

definition try_rule :: "dataframe \<Rightarrow> rule \<Rightarrow> error + nat list" where
  "try_rule df r =
     (case rule_input df r of
        Inl e \<Rightarrow> Inl e
      | Inr x \<Rightarrow>
         (case rule_func r x of
            Inl e \<Rightarrow> Inl e
          | Inr msk \<Rightarrow> index_where_not (index df) (fillna_False msk)))"

definition make_violation :: "dataframe \<Rightarrow> rule \<Rightarrow> nat \<Rightarrow> violation" where
  "make_violation df r idx =
     \<lparr> v_index = idx,
       v_EmpID = (if ''EmpID'' \<in> set (column_names df) then Some (df_at df idx ''EmpID'') else None),
       v_rule = rule_name r,
       v_columns = join_comma (rule_cols r),
       v_message = rule_message r,
       v_values = loc_to_dict df idx (rule_cols r) \<rparr>"

text \<open>One turn of \<^verbatim>\<open>for rule_name, rule_func, cols, message in rules\<close>.\<close>

definition validate_step :: "vstate \<Rightarrow> rule \<Rightarrow> vstate" where
  "validate_step s r =
     (if \<not> list_all (\<lambda>c. c \<in> set (column_names (st_df s))) (rule_cols r) then s
      else (case try_rule (st_df s) r of
              Inl e \<Rightarrow> s
            | Inr failed \<Rightarrow>
                s\<lparr>st_violations :=
                    st_violations s @ map (make_violation (st_df s) r) failed\<rparr>))"

fun validate_loop :: "vstate \<Rightarrow> rule list \<Rightarrow> vstate" where
  "validate_loop s [] = s"
| "validate_loop s (r # rs) = validate_loop (validate_step s r) rs"

text \<open>The stage: \<^verbatim>\<open>violations = []\<close>, then the loop.\<close>

definition validate :: "dataframe \<Rightarrow> rule list \<Rightarrow> vstate" where
  "validate df rs = validate_loop \<lparr>st_df = df, st_violations = []\<rparr> rs"

definition validation_report :: "dataframe \<Rightarrow> rule list \<Rightarrow> violation list" where
  "validation_report df rs = st_violations (validate df rs)"

text \<open>The records one rule adds to the report.\<close>

definition rule_records :: "dataframe \<Rightarrow> rule \<Rightarrow> violation list" where
  "rule_records df r = st_violations (validate_step \<lparr>st_df = df, st_violations = []\<rparr> r)"

section \<open>pandas operations used by the rules\<close>

text \<open>
  The result of a float64 computation: a finite number (a rational), an infinity or
  \<^verbatim>\<open>NaN\<close>. The numbers in the cells of a table are finite.
\<close>

datatype fl = Finite rat | PosInf | NegInf | NaN

text \<open>\<^verbatim>\<open><\<close> on float64: exact, and false when an operand is \<^verbatim>\<open>NaN\<close>.\<close>

fun fl_lt :: "fl \<Rightarrow> fl \<Rightarrow> bool" where
  "fl_lt NaN b = False"
| "fl_lt a NaN = False"
| "fl_lt (Finite x) (Finite y) = (x < y)"
| "fl_lt a PosInf = (a \<noteq> PosInf)"
| "fl_lt NegInf b = (b \<noteq> NegInf)"
| "fl_lt a b = False"

text \<open>
  The library functions are parameters of the model: \<^verbatim>\<open>pd.to_datetime(s, errors="coerce")\<close>
  on a column (a timestamp per row, \<open>None\<close> for \<^verbatim>\<open>NaT\<close>, or an exception such as the one
  for mixed time zones), \<^verbatim>\<open>pd.to_numeric\<close> on one text, \<^verbatim>\<open>str\<close> of a number, and the
  float64 arithmetic with its rounding: \<^verbatim>\<open>Series.quantile(q)\<close> and \<^verbatim>\<open>Series.mean()\<close> on
  the values of a column that are not missing (at least one), and \<^verbatim>\<open>-\<close>, \<^verbatim>\<open>+\<close>,
  \<^verbatim>\<open>*\<close> on two floats. The mean of a column is taken to be finite.
\<close>

record lib =
  to_datetime :: "cell list \<Rightarrow> error + int option list"
  to_numeric_str :: "string \<Rightarrow> rat option"
  str_num :: "rat \<Rightarrow> string"
  f_quantile :: "rat list \<Rightarrow> rat \<Rightarrow> fl"
  f_mean :: "rat list \<Rightarrow> rat"
  f_sub :: "fl \<Rightarrow> fl \<Rightarrow> fl"
  f_add :: "fl \<Rightarrow> fl \<Rightarrow> fl"
  f_mul :: "fl \<Rightarrow> fl \<Rightarrow> fl"

fun is_Str :: "cell \<Rightarrow> bool" where
  "is_Str (Str s) = True"
| "is_Str c = False"

text \<open>
  A comparison of a column with a number, row by row: false at a missing value;
  comparing a text with a number raises \<^verbatim>\<open>TypeError\<close>.
\<close>

definition cmp_scalar :: "(rat \<Rightarrow> bool) \<Rightarrow> cell list \<Rightarrow> error + bool option list" where
  "cmp_scalar p xs =
     (if list_ex is_Str xs then Inl TypeError
      else Inr (map (\<lambda>x. case x of Num v \<Rightarrow> Some (p v) | _ \<Rightarrow> Some False) xs))"

text \<open>\<^verbatim>\<open>def is_positive(series): return series > 0\<close>\<close>

definition is_positive :: "cell list \<Rightarrow> error + bool option list" where
  "is_positive series = cmp_scalar (\<lambda>v. v > 0) series"

text \<open>\<^verbatim>\<open>def in_range(series, lo, hi): return series.between(lo, hi)\<close>, both ends included.\<close>

definition in_range :: "cell list \<Rightarrow> rat \<Rightarrow> rat \<Rightarrow> error + bool option list" where
  "in_range series lo hi = cmp_scalar (\<lambda>v. lo \<le> v \<and> v \<le> hi) series"

text \<open>
  \<^verbatim>\<open>series.astype(str)\<close> (pandas 1.x and 2.x): a missing value becomes the text
  \<^verbatim>\<open>nan\<close>.
\<close>

definition astype_str :: "lib \<Rightarrow> cell \<Rightarrow> string" where
  "astype_str L x = (case x of Null \<Rightarrow> ''nan'' | Num v \<Rightarrow> str_num L v | Str s \<Rightarrow> s)"

text \<open>
  Regular expressions, as far as the pattern of the script needs them, matched by
  derivatives. \<open>NotLit c\<close> is the class \<^verbatim>\<open>[^c]\<close>, which also matches a newline.
\<close>

datatype regex = Zero | One | Lit char | NotLit char | Seq regex regex | Alt regex regex | Star regex

definition Plus_rx :: "regex \<Rightarrow> regex" where
  "Plus_rx r = Seq r (Star r)"

fun nullable :: "regex \<Rightarrow> bool" where
  "nullable Zero = False"
| "nullable One = True"
| "nullable (Lit c) = False"
| "nullable (NotLit c) = False"
| "nullable (Seq r s) = (nullable r \<and> nullable s)"
| "nullable (Alt r s) = (nullable r \<or> nullable s)"
| "nullable (Star r) = True"

fun deriv :: "char \<Rightarrow> regex \<Rightarrow> regex" where
  "deriv c Zero = Zero"
| "deriv c One = Zero"
| "deriv c (Lit a) = (if a = c then One else Zero)"
| "deriv c (NotLit a) = (if a = c then Zero else One)"
| "deriv c (Seq r s) =
     (if nullable r then Alt (Seq (deriv c r) s) (deriv c s) else Seq (deriv c r) s)"
| "deriv c (Alt r s) = Alt (deriv c r) (deriv c s)"
| "deriv c (Star r) = Seq (deriv c r) (Star r)"

fun fullmatch :: "regex \<Rightarrow> string \<Rightarrow> bool" where
  "fullmatch r [] = nullable r"
| "fullmatch r (c # cs) = fullmatch (deriv c r) cs"

text \<open>
  \<^verbatim>\<open>re.match\<close> of \<^verbatim>\<open>^r$\<close>: the whole text matches \<open>r\<close>, or the text without its
  final newline does (\<^verbatim>\<open>$\<close> also matches just before a newline that ends the text).
\<close>

definition re_match_anchored :: "regex \<Rightarrow> string \<Rightarrow> bool" where
  "re_match_anchored r s =
     (fullmatch r s \<or> (s \<noteq> [] \<and> last s = CHR 0x0A \<and> fullmatch r (butlast s)))"

text \<open>The pattern \<^verbatim>\<open>^[^@]+@[^@]+\.[^@]+$\<close> without its anchors.\<close>

definition email_pattern :: regex where
  "email_pattern =
     Seq (Plus_rx (NotLit CHR ''@''))
       (Seq (Lit CHR ''@'')
         (Seq (Plus_rx (NotLit CHR ''@''))
           (Seq (Lit CHR ''.'') (Plus_rx (NotLit CHR ''@'')))))"

text \<open>
  \<^verbatim>\<open>def match_regex(series, pattern): return series.astype(str).str.match(pattern, na=False)\<close>
\<close>

definition match_regex :: "lib \<Rightarrow> cell list \<Rightarrow> regex \<Rightarrow> error + bool option list" where
  "match_regex L series pattern =
     Inr (map (\<lambda>x. Some (re_match_anchored pattern (astype_str L x))) series)"

text \<open>\<^verbatim>\<open>def not_null(series): return ~series.isnull()\<close>\<close>

definition not_null :: "cell list \<Rightarrow> error + bool option list" where
  "not_null series = Inr (map (\<lambda>x. Some (\<not> (x = Null))) series)"

text \<open>
  \<^verbatim>\<open>s.duplicated()\<close>: true at every value that occurred at an earlier row (missing
  values count as equal to each other).
\<close>

fun duplicated_from :: "'a list \<Rightarrow> 'a list \<Rightarrow> bool list" where
  "duplicated_from seen [] = []"
| "duplicated_from seen (x # xs) = (x \<in> set seen) # duplicated_from (x # seen) xs"

definition duplicated :: "'a list \<Rightarrow> bool list" where
  "duplicated xs = duplicated_from [] xs"

fun is_Num :: "cell \<Rightarrow> bool" where
  "is_Num (Num v) = True"
| "is_Num c = False"

text \<open>
  The \<^verbatim>\<open>.str\<close> accessor: \<^verbatim>\<open>AttributeError\<close> on a column that holds numbers and no
  text (a numeric column); at a cell that is not a text the result is missing.
\<close>

definition str_accessor :: "(string \<Rightarrow> 'a) \<Rightarrow> cell list \<Rightarrow> error + 'a option list" where
  "str_accessor f xs =
     (if list_ex is_Num xs \<and> \<not> list_ex is_Str xs then Inl AttributeError
      else Inr (map (\<lambda>x. case x of Str s \<Rightarrow> Some (f s) | _ \<Rightarrow> None) xs))"

text \<open>\<^verbatim>\<open>str.lower\<close> on ASCII letters.\<close>

definition lower_char :: "char \<Rightarrow> char" where
  "lower_char c =
     (if 65 \<le> (of_char c :: nat) \<and> (of_char c :: nat) \<le> 90
      then char_of (of_char c + (32 :: nat)) else c)"

definition lower :: "string \<Rightarrow> string" where
  "lower s = map lower_char s"

text \<open>\<^verbatim>\<open>str.contains\<close> of a literal: the literal starts at some position of the text.\<close>

fun contains :: "string \<Rightarrow> string \<Rightarrow> bool" where
  "contains pat [] = (pat = [])"
| "contains pat (c # cs) = (take (length pat) (c # cs) = pat \<or> contains pat cs)"

section \<open>The rules\<close>

text \<open>
  A rule with one column is called with that column (a Series), the others with the
  frame; the loop never calls a function of the list with the other kind of argument.
\<close>

definition on_series ::
  "(cell list \<Rightarrow> error + bool option list) \<Rightarrow> pandas_obj \<Rightarrow> error + bool option list" where
  "on_series f obj = (case obj of Series s \<Rightarrow> f s | DataFrame d \<Rightarrow> Inl TypeError)"

definition on_frame ::
  "(dataframe \<Rightarrow> error + bool option list) \<Rightarrow> pandas_obj \<Rightarrow> error + bool option list" where
  "on_frame f obj = (case obj of DataFrame d \<Rightarrow> f d | Series s \<Rightarrow> Inl KeyError)"

text \<open>
  \<^verbatim>\<open>pd.to_datetime(df_["HireDate"], errors="coerce") <= pd.to_datetime(df_["TerminationDate"], errors="coerce")\<close>:
  a comparison with \<^verbatim>\<open>NaT\<close> is false.
\<close>

definition le_datetime :: "int option \<Rightarrow> int option \<Rightarrow> bool" where
  "le_datetime a b = (case a of None \<Rightarrow> False | Some x \<Rightarrow> (case b of None \<Rightarrow> False | Some y \<Rightarrow> x \<le> y))"

definition hire_before_termination :: "lib \<Rightarrow> dataframe \<Rightarrow> error + bool option list" where
  "hire_before_termination L dfx =
     (case getitem dfx ''HireDate'' of
        Inl e \<Rightarrow> Inl e
      | Inr h \<Rightarrow>
         (case to_datetime L h of
            Inl e \<Rightarrow> Inl e
          | Inr hs \<Rightarrow>
             (case getitem dfx ''TerminationDate'' of
                Inl e \<Rightarrow> Inl e
              | Inr t \<Rightarrow>
                 (case to_datetime L t of
                    Inl e \<Rightarrow> Inl e
                  | Inr ts \<Rightarrow>
                      if length hs \<noteq> length ts then Inl ValueError
                      else Inr (map (\<lambda>(a, b). Some (le_datetime a b)) (zip hs ts))))))"

text \<open>
  \<^verbatim>\<open>~((df_["JobLevel"] == 1) & (df_["JobRole"].str.lower().str.contains("manager")))\<close>:
  a missing right operand of \<^verbatim>\<open>&\<close> counts as false.
\<close>

definition junior_not_manager :: "dataframe \<Rightarrow> error + bool option list" where
  "junior_not_manager dfx =
     (case getitem dfx ''JobLevel'' of
        Inl e \<Rightarrow> Inl e
      | Inr lv \<Rightarrow>
         (case getitem dfx ''JobRole'' of
            Inl e \<Rightarrow> Inl e
          | Inr ro \<Rightarrow>
             (case str_accessor (\<lambda>s. contains ''manager'' (lower s)) ro of
                Inl e \<Rightarrow> Inl e
              | Inr cs \<Rightarrow>
                  if length lv \<noteq> length cs then Inl ValueError
                  else Inr (map (\<lambda>(l, c). Some (\<not> (l = Num 1 \<and> (case c of None \<Rightarrow> False | Some b \<Rightarrow> b))))
                              (zip lv cs)))))"

definition rules :: "lib \<Rightarrow> rule list" where
  "rules L =
   [ \<lparr> rule_name = ''empid_not_null'', rule_func = on_series (\<lambda>s. not_null s),
       rule_cols = [''EmpID''], rule_message = ''EmpID must not be null'' \<rparr>,
     \<lparr> rule_name = ''empid_unique'',
       rule_func = on_series (\<lambda>s. Inr (map (\<lambda>b. Some (\<not> b)) (duplicated s))),
       rule_cols = [''EmpID''], rule_message = ''EmpID must be unique'' \<rparr>,
     \<lparr> rule_name = ''age_positive'', rule_func = on_series (\<lambda>s. is_positive s),
       rule_cols = [''Age''], rule_message = ''Age must be positive'' \<rparr>,
     \<lparr> rule_name = ''age_range'', rule_func = on_series (\<lambda>s. in_range s 16 70),
       rule_cols = [''Age''],
       rule_message = ''Age must be 16'' @ [CHR 0xE2, CHR 0x80, CHR 0x93] @ ''70'' \<rparr>,
     \<lparr> rule_name = ''income_positive'', rule_func = on_series (\<lambda>s. cmp_scalar (\<lambda>v. v \<ge> 0) s),
       rule_cols = [''MonthlyIncome''], rule_message = ''Income cannot be negative'' \<rparr>,
     \<lparr> rule_name = ''email_format'', rule_func = on_series (\<lambda>s. match_regex L s email_pattern),
       rule_cols = [''WorkEmail''], rule_message = ''Invalid email format'' \<rparr>,
     \<lparr> rule_name = ''hire_before_termination'', rule_func = on_frame (hire_before_termination L),
       rule_cols = [''HireDate'', ''TerminationDate''],
       rule_message = ''HireDate must be <= TerminationDate'' \<rparr>,
     \<lparr> rule_name = ''junior_not_manager'', rule_func = on_frame junior_not_manager,
       rule_cols = [''JobLevel'', ''JobRole''],
       rule_message = ''JobLevel 1 cannot have a manager role'' \<rparr> ]"

section \<open>Cleaning stages\<close>

text \<open>\<^verbatim>\<open>df[c] = xs\<close>: replaces the column of that name, or appends a new last column.\<close>

definition setitem :: "dataframe \<Rightarrow> string \<Rightarrow> cell list \<Rightarrow> dataframe" where
  "setitem df c xs =
     (if c \<in> set (column_names df)
      then df\<lparr>columns := map (\<lambda>(n, ys). if n = c then (n, xs) else (n, ys)) (columns df)\<rparr>
      else df\<lparr>columns := columns df @ [(c, xs)]\<rparr>)"

text \<open>\<^verbatim>\<open>if col in df.columns: df[col] = f(df[col])\<close>\<close>

definition update_col :: "(cell list \<Rightarrow> cell list) \<Rightarrow> string \<Rightarrow> dataframe \<Rightarrow> dataframe" where
  "update_col f col df =
     (case map_of (columns df) col of None \<Rightarrow> df | Some xs \<Rightarrow> setitem df col (f xs))"

fun fold_err :: "('a \<Rightarrow> 's \<Rightarrow> error + 's) \<Rightarrow> 'a list \<Rightarrow> 's \<Rightarrow> error + 's" where
  "fold_err f [] s = Inr s"
| "fold_err f (x # xs) s = (case f x s of Inl e \<Rightarrow> Inl e | Inr s' \<Rightarrow> fold_err f xs s')"

fun nums :: "cell list \<Rightarrow> rat list" where
  "nums [] = []"
| "nums (Num v # xs) = v # nums xs"
| "nums (x # xs) = nums xs"

text \<open>
  \<^verbatim>\<open>df[col].mean()\<close>: the mean of the values that are not missing, \<^verbatim>\<open>NaN\<close> when
  there is none; \<^verbatim>\<open>TypeError\<close> on a column holding a text.
\<close>

definition series_mean :: "lib \<Rightarrow> cell list \<Rightarrow> error + cell" where
  "series_mean L xs =
     (if list_ex is_Str xs then Inl TypeError
      else if nums xs = [] then Inr Null
      else Inr (Num (f_mean L (nums xs))))"

definition fillna :: "cell \<Rightarrow> cell list \<Rightarrow> cell list" where
  "fillna v xs = map (\<lambda>x. if x = Null then v else x) xs"

definition numeric_cols_initial :: "string list" where
  "numeric_cols_initial =
     [''DistanceFromHome'', ''HourlyRate'', ''NumCompaniesWorked'',
      ''PercentSalaryHike'', ''TotalWorkingYears'', ''YearsAtCompany'',
      ''YearsSinceLastPromotion'', ''YearsWithCurrManager'']"

definition text_cols :: "string list" where
  "text_cols =
     [''AgeGroup'', ''Attrition'', ''BusinessTravel'', ''Department'',
      ''Education'', ''EducationField'', ''JobRole'', ''MaritalStatus'',
      ''Over18'', ''OverTime'']"

definition numeric_cols_remaining :: "string list" where
  "numeric_cols_remaining =
     [''DailyRate'', ''EmployeeCount'', ''EmployeeNumber'',
      ''EnvironmentSatisfaction'', ''JobInvolvement'', ''JobLevel'',
      ''JobSatisfaction'', ''MonthlyIncome'', ''MonthlyRate'',
      ''PerformanceRating'', ''StandardHours'', ''StockOptionLevel'',
      ''WorkLifeBalance'', ''RelationshipSatisfaction'']"

text \<open>\<^verbatim>\<open>if col in df.columns: df[col] = df[col].fillna(df[col].mean())\<close>\<close>

definition impute_mean :: "lib \<Rightarrow> string \<Rightarrow> dataframe \<Rightarrow> error + dataframe" where
  "impute_mean L col df =
     (case map_of (columns df) col of
        None \<Rightarrow> Inr df
      | Some xs \<Rightarrow>
         (case series_mean L xs of Inl e \<Rightarrow> Inl e | Inr m \<Rightarrow> Inr (setitem df col (fillna m xs))))"

text \<open>\<^verbatim>\<open>if col in df.columns: df[col] = df[col].fillna("Unknown")\<close>\<close>

definition impute_text :: "string \<Rightarrow> dataframe \<Rightarrow> dataframe" where
  "impute_text col df = update_col (fillna (Str ''Unknown'')) col df"

text \<open>The rows at which \<open>keep\<close> is true, with their labels.\<close>

definition keep_rows :: "bool list \<Rightarrow> dataframe \<Rightarrow> dataframe" where
  "keep_rows keep df =
     \<lparr> index = map fst (filter snd (zip (index df) keep)),
       columns = map (\<lambda>(c, xs). (c, map fst (filter snd (zip xs keep)))) (columns df) \<rparr>"

definition row_values :: "dataframe \<Rightarrow> nat \<Rightarrow> cell list" where
  "row_values df i = map (\<lambda>(c, xs). xs ! i) (columns df)"

text \<open>\<^verbatim>\<open>df.drop_duplicates()\<close>: of rows equal in every column, the first one stays.\<close>

definition drop_duplicates :: "dataframe \<Rightarrow> dataframe" where
  "drop_duplicates df =
     keep_rows (map Not (duplicated (map (row_values df) [0..<length (index df)]))) df"

definition id_cols :: "string list" where
  "id_cols = [''EmpID'', ''EmployeeNumber'']"

text \<open>\<^verbatim>\<open>if col in df.columns: df = df.drop_duplicates(subset=[col])\<close>\<close>

definition drop_duplicates_subset :: "string \<Rightarrow> dataframe \<Rightarrow> dataframe" where
  "drop_duplicates_subset col df =
     (case map_of (columns df) col of
        None \<Rightarrow> df
      | Some xs \<Rightarrow> keep_rows (map Not (duplicated xs)) df)"

definition numeric_columns :: "string list" where
  "numeric_columns =
     [''Age'', ''DailyRate'', ''DistanceFromHome'', ''Education'', ''EmployeeCount'',
      ''EmployeeNumber'', ''EnvironmentSatisfaction'', ''HourlyRate'',
      ''JobInvolvement'', ''JobLevel'', ''JobSatisfaction'', ''MonthlyIncome'',
      ''MonthlyRate'', ''NumCompaniesWorked'', ''PercentSalaryHike'',
      ''PerformanceRating'', ''RelationshipSatisfaction'', ''StandardHours'',
      ''StockOptionLevel'', ''TotalWorkingYears'', ''TrainingTimesLastYear'',
      ''WorkLifeBalance'', ''YearsAtCompany'', ''YearsInCurrentRole'',
      ''YearsSinceLastPromotion'', ''YearsWithCurrManager'']"

text \<open>\<^verbatim>\<open>pd.to_numeric(df[col], errors="coerce")\<close>: a text that is no number becomes missing.\<close>

definition to_numeric :: "lib \<Rightarrow> cell list \<Rightarrow> cell list" where
  "to_numeric L xs =
     map (\<lambda>x. case x of
                 Str s \<Rightarrow> (case to_numeric_str L s of None \<Rightarrow> Null | Some v \<Rightarrow> Num v)
               | _ \<Rightarrow> x) xs"

definition categorical_columns :: "string list" where
  "categorical_columns =
     [''BusinessTravel'', ''Department'', ''EducationField'', ''Gender'',
      ''JobRole'', ''MaritalStatus'', ''Over18'', ''OverTime'',
      ''AgeGroup'', ''SalarySlab'']"

text \<open>\<^verbatim>\<open>df[col].astype("category")\<close> keeps every value, the missing ones too.\<close>

definition astype_category :: "cell list \<Rightarrow> cell list" where
  "astype_category xs = xs"

section \<open>Outlier detection\<close>

text \<open>
  \<^verbatim>\<open>data[column].quantile(q)\<close>: the quantile of the values that are not missing,
  \<^verbatim>\<open>NaN\<close> when there is none; \<^verbatim>\<open>TypeError\<close> on a column holding a text.
\<close>

definition quantile :: "lib \<Rightarrow> cell list \<Rightarrow> rat \<Rightarrow> error + fl" where
  "quantile L xs q =
     (if list_ex is_Str xs then Inl TypeError
      else if nums xs = [] then Inr NaN
      else Inr (f_quantile L (nums xs) q))"

text \<open>
  \<^verbatim>\<open>data[column] < lower\<close> and \<^verbatim>\<open>data[column] > upper\<close> at one row: false at a
  missing value.
\<close>

definition cell_lt :: "cell \<Rightarrow> fl \<Rightarrow> bool" where
  "cell_lt x b = (case x of Num v \<Rightarrow> fl_lt (Finite v) b | _ \<Rightarrow> False)"

definition cell_gt :: "cell \<Rightarrow> fl \<Rightarrow> bool" where
  "cell_gt x b = (case x of Num v \<Rightarrow> fl_lt b (Finite v) | _ \<Rightarrow> False)"

text \<open>\<^verbatim>\<open>.astype(int)\<close> of a boolean.\<close>

definition astype_int :: "bool \<Rightarrow> cell" where
  "astype_int b = (if b then Num 1 else Num 0)"

definition detect_outliers_iqr :: "lib \<Rightarrow> dataframe \<Rightarrow> string \<Rightarrow> error + dataframe" where
  "detect_outliers_iqr L data column =
     (case getitem data column of
        Inl e \<Rightarrow> Inl e
      | Inr xs \<Rightarrow>
         (case quantile L xs (1 / 4) of
            Inl e \<Rightarrow> Inl e
          | Inr Q1 \<Rightarrow>
             (case quantile L xs (3 / 4) of
                Inl e \<Rightarrow> Inl e
              | Inr Q3 \<Rightarrow>
                 (let IQR = f_sub L Q3 Q1;
                      lower = f_sub L Q1 (f_mul L (Finite (3 / 2)) IQR);
                      upper = f_add L Q3 (f_mul L (Finite (3 / 2)) IQR);
                      flag_col = column @ ''_outlier''
                  in Inr (setitem data flag_col
                            (map (\<lambda>x. astype_int (cell_lt x lower \<or> cell_gt x upper)) xs))))))"

definition numeric_cols_outliers :: "string list" where
  "numeric_cols_outliers =
     [''DailyRate'', ''DistanceFromHome'', ''MonthlyIncome'', ''MonthlyRate'',
      ''PercentSalaryHike'', ''TotalWorkingYears'', ''YearsWithCurrManager'']"

text \<open>\<^verbatim>\<open>if col in df.columns: df = detect_outliers_iqr(df, col)\<close>\<close>

definition outlier_step :: "lib \<Rightarrow> string \<Rightarrow> dataframe \<Rightarrow> error + dataframe" where
  "outlier_step L col df =
     (if col \<in> set (column_names df) then detect_outliers_iqr L df col else Inr df)"

section \<open>The whole script\<close>

text \<open>
  The three files the script writes, as frames: \<^verbatim>\<open>hr_with_outliers_flags.csv\<close>,
  \<^verbatim>\<open>hr_final.csv\<close> and \<^verbatim>\<open>validation_report.csv\<close>. An exception outside the
  \<^verbatim>\<open>try\<close> of the validation loop ends the run.
\<close>

record outputs =
  interim :: dataframe
  final :: dataframe
  report :: "violation list"

definition pipeline :: "lib \<Rightarrow> dataframe \<Rightarrow> error + outputs" where
  "pipeline L raw =
     (case fold_err (impute_mean L) numeric_cols_initial raw of
        Inl e \<Rightarrow> Inl e
      | Inr df1 \<Rightarrow>
         (case fold_err (impute_mean L) numeric_cols_remaining (fold impute_text text_cols df1) of
            Inl e \<Rightarrow> Inl e
          | Inr df3 \<Rightarrow>
             (let df4 = fold drop_duplicates_subset id_cols (drop_duplicates df3);
                  df5 = fold (update_col (to_numeric L)) numeric_columns df4;
                  df6 = fold (update_col astype_category) categorical_columns df5;
                  df7 = update_col (map (\<lambda>x. Str (astype_str L x))) ''EmpID'' df6
              in (case fold_err (outlier_step L) numeric_cols_outliers df7 of
                    Inl e \<Rightarrow> Inl e
                  | Inr df8 \<Rightarrow>
                     (let s = validate df8 (rules L)
                      in Inr \<lparr> interim = df8, final = st_df s, report = st_violations s \<rparr>)))))"

section \<open>A reference instance of the library functions\<close>

text \<open>
  A small instance of the library functions, for running the model on concrete tables:
  dates written \<^verbatim>\<open>YYYY-MM-DD\<close> (every other cell is \<^verbatim>\<open>NaT\<close>), numbers written as
  decimal integers, and \<^verbatim>\<open>str\<close> of an integer.
\<close>

definition digit_of :: "char \<Rightarrow> nat option" where
  "digit_of c =
     (if 48 \<le> (of_char c :: nat) \<and> (of_char c :: nat) \<le> 57 then Some (of_char c - 48) else None)"

fun digits_value :: "nat \<Rightarrow> string \<Rightarrow> nat option" where
  "digits_value acc [] = Some acc"
| "digits_value acc (c # cs) =
     (case digit_of c of None \<Rightarrow> None | Some d \<Rightarrow> digits_value (10 * acc + d) cs)"

definition parse_nat :: "string \<Rightarrow> nat option" where
  "parse_nat s = (if s = [] then None else digits_value 0 s)"

definition parse_decimal :: "string \<Rightarrow> rat option" where
  "parse_decimal s =
     (case s of
        [] \<Rightarrow> None
      | c # cs \<Rightarrow> if c = CHR ''-'' then map_option (\<lambda>n. - of_nat n) (parse_nat cs)
                  else map_option of_nat (parse_nat s))"

definition days_in_month :: "nat \<Rightarrow> nat \<Rightarrow> nat" where
  "days_in_month y m =
     (if m = 2 then (if y mod 4 = 0 \<and> (y mod 100 \<noteq> 0 \<or> y mod 400 = 0) then 29 else 28)
      else if m = 4 \<or> m = 6 \<or> m = 9 \<or> m = 11 then 30 else 31)"

text \<open>The timestamp of a date is a number that grows with the date.\<close>

definition iso_date :: "cell \<Rightarrow> int option" where
  "iso_date x =
     (case x of
        Str s \<Rightarrow>
          (if length s = 10 \<and> s ! 4 = CHR ''-'' \<and> s ! 7 = CHR ''-''
           then (case parse_nat (take 4 s) of
                   None \<Rightarrow> None
                 | Some y \<Rightarrow>
                    (case parse_nat (take 2 (drop 5 s)) of
                       None \<Rightarrow> None
                     | Some m \<Rightarrow>
                        (case parse_nat (drop 8 s) of
                           None \<Rightarrow> None
                         | Some d \<Rightarrow>
                             if 1 \<le> m \<and> m \<le> 12 \<and> 1 \<le> d \<and> d \<le> days_in_month y m
                             then Some (int ((y * 100 + m) * 100 + d)) else None)))
           else None)
      | _ \<Rightarrow> None)"

fun str_nat :: "nat \<Rightarrow> string" where
  "str_nat n = (if n < 10 then [char_of (48 + n)] else str_nat (n div 10) @ [char_of (48 + n mod 10)])"

declare str_nat.simps [simp del]

definition str_int :: "rat \<Rightarrow> string" where
  "str_int v = (if v < 0 then CHR ''-'' # str_nat (nat (- \<lfloor>v\<rfloor>)) else str_nat (nat \<lfloor>v\<rfloor>))"

text \<open>
  The arithmetic of the reference instance is exact (it agrees with float64 where no
  operation rounds): the quantile by linear interpolation between the two nearest of
  the sorted values, and the operations of IEEE 754 on infinities and \<^verbatim>\<open>NaN\<close>.
\<close>

definition linear_quantile :: "rat list \<Rightarrow> rat \<Rightarrow> fl" where
  "linear_quantile vs q =
     (let s = sort vs; pos = q * of_nat (length s - 1)
      in Finite (s ! nat \<lfloor>pos\<rfloor>
                 + (s ! nat \<lceil>pos\<rceil> - s ! nat \<lfloor>pos\<rfloor>) * (pos - of_int \<lfloor>pos\<rfloor>)))"

definition exact_mean :: "rat list \<Rightarrow> rat" where
  "exact_mean vs = sum_list vs / of_nat (length vs)"

fun exact_neg :: "fl \<Rightarrow> fl" where
  "exact_neg (Finite x) = Finite (- x)"
| "exact_neg PosInf = NegInf"
| "exact_neg NegInf = PosInf"
| "exact_neg NaN = NaN"

fun exact_add :: "fl \<Rightarrow> fl \<Rightarrow> fl" where
  "exact_add NaN b = NaN"
| "exact_add a NaN = NaN"
| "exact_add (Finite x) (Finite y) = Finite (x + y)"
| "exact_add PosInf NegInf = NaN"
| "exact_add NegInf PosInf = NaN"
| "exact_add PosInf b = PosInf"
| "exact_add NegInf b = NegInf"
| "exact_add a b = b"

definition exact_sub :: "fl \<Rightarrow> fl \<Rightarrow> fl" where
  "exact_sub a b = exact_add a (exact_neg b)"

definition fl_sign :: "fl \<Rightarrow> int" where
  "fl_sign a = (case a of Finite x \<Rightarrow> sgn \<lfloor>sgn x\<rfloor> | PosInf \<Rightarrow> 1 | NegInf \<Rightarrow> - 1 | NaN \<Rightarrow> 0)"

fun exact_mul :: "fl \<Rightarrow> fl \<Rightarrow> fl" where
  "exact_mul NaN b = NaN"
| "exact_mul a NaN = NaN"
| "exact_mul (Finite x) (Finite y) = Finite (x * y)"
| "exact_mul a b =
     (if fl_sign a * fl_sign b = 0 then NaN
      else if fl_sign a * fl_sign b > 0 then PosInf else NegInf)"

definition ref_lib :: lib where
  "ref_lib = \<lparr> to_datetime = (\<lambda>xs. Inr (map iso_date xs)),
               to_numeric_str = parse_decimal,
               str_num = str_int,
               f_quantile = linear_quantile,
               f_mean = exact_mean,
               f_sub = exact_sub,
               f_add = exact_add,
               f_mul = exact_mul \<rparr>"

section \<open>Verdicts of a rule that is evaluated\<close>

text \<open>
  The mask of a rule that reaches the \<^verbatim>\<open>for idx in failed\<close> loop: its columns are
  present, its function returns, and the mask has one verdict per row. \<open>None\<close> for a
  rule that is skipped.
\<close>

definition rule_mask :: "dataframe \<Rightarrow> rule \<Rightarrow> bool option list option" where
  "rule_mask df r =
     (if \<not> list_all (\<lambda>c. c \<in> set (column_names df)) (rule_cols r) then None
      else (case rule_input df r of
              Inl e \<Rightarrow> None
            | Inr x \<Rightarrow>
               (case rule_func r x of
                  Inl e \<Rightarrow> None
                | Inr msk \<Rightarrow> if length msk \<noteq> length (index df) then None else Some msk)))"

text \<open>The labels of the rows whose verdict is not an explicit \<open>True\<close>.\<close>

definition not_true_labels :: "nat list \<Rightarrow> bool option list \<Rightarrow> nat list" where
  "not_true_labels idx msk = map fst (filter (\<lambda>(i, v). \<not> (v = Some True)) (zip idx msk))"

text \<open>The labels of the rows whose verdict is an explicit \<open>False\<close>.\<close>

definition false_labels :: "nat list \<Rightarrow> bool option list \<Rightarrow> nat list" where
  "false_labels idx msk = map fst (filter (\<lambda>(i, v). v = Some False) (zip idx msk))"

section \<open>A rule with missing verdicts\<close>

text \<open>
  A rule as one can add to the list \<^verbatim>\<open>rules\<close>, with the function
  \<^verbatim>\<open>lambda s: s.str.lower().str.contains("manager")\<close>: at a row whose cell is missing
  the verdict is missing.
\<close>

definition manager_rule :: rule where
  "manager_rule =
     \<lparr> rule_name = ''role_is_manager'',
       rule_func = on_series (\<lambda>s. str_accessor (\<lambda>t. contains ''manager'' (lower t)) s),
       rule_cols = [''JobRole''],
       rule_message = ''JobRole must be a manager role'' \<rparr>"

section \<open>Dates out of order\<close>

text \<open>
  When the rule \<^verbatim>\<open>hire_before_termination\<close> reports a row, in words: one of the two
  dates is \<^verbatim>\<open>NaT\<close>, or the hire date is after the termination date.
\<close>

definition date_violation :: "int option \<Rightarrow> int option \<Rightarrow> bool" where
  "date_violation a b =
     (case a of None \<Rightarrow> True | Some x \<Rightarrow> (case b of None \<Rightarrow> True | Some y \<Rightarrow> y < x))"

section \<open>Example tables\<close>

text \<open>
  A raw table of three rows in which one \<^verbatim>\<open>EmpID\<close> occurs twice and one \<^verbatim>\<open>Age\<close> is
  outside 16 to 70, the table the script makes of it, and the report it writes.
\<close>

definition roster :: dataframe where
  "roster = \<lparr>index = [0, 1, 2],
           columns = [(''EmpID'', [Str ''A'', Str ''A'', Str ''B'']), (''Age'', [Num 30, Num 40, Num 80])]\<rparr>"

definition roster_clean :: dataframe where
  "roster_clean = \<lparr>index = [0, 2],
           columns = [(''EmpID'', [Str ''A'', Str ''B'']), (''Age'', [Num 30, Num 80])]\<rparr>"

definition roster_report :: "violation list" where
  "roster_report =
     [\<lparr>v_index = 2, v_EmpID = Some (Str ''B''), v_rule = ''age_range'', v_columns = ''Age'',
       v_message = ''Age must be 16'' @ [CHR 0xE2, CHR 0x80, CHR 0x93] @ ''70'',
       v_values = [(''Age'', Num 80)]\<rparr>]"

text \<open>
  Three employees hired on the same day: one terminated a year before, one on that day,
  one with no termination date.
\<close>

definition tenure :: dataframe where
  "tenure = \<lparr>index = [0, 1, 2],
             columns = [(''HireDate'', [Str ''2020-01-01'', Str ''2020-01-01'', Str ''2020-01-01'']),
                        (''TerminationDate'', [Str ''2019-01-01'', Str ''2020-01-01'', Null])]\<rparr>"

text \<open>Two employees, the second without \<^verbatim>\<open>EmpID\<close>, and the table the script makes of them.\<close>

definition staff :: dataframe where
  "staff = \<lparr>index = [0, 1],
            columns = [(''EmpID'', [Str ''E1'', Null]), (''Age'', [Num 30, Num 40])]\<rparr>"

definition staff_clean :: dataframe where
  "staff_clean = \<lparr>index = [0, 1],
                  columns = [(''EmpID'', [Str ''E1'', Str ''nan'']), (''Age'', [Num 30, Num 40])]\<rparr>"

section \<open>The outlier flag in the words of the specification\<close>

text \<open>
  The flag of a row, with Q1 and Q3 the 25th and 75th percentile of the values that are
  not missing: 1 if the value is below \<open>Q1 - 1.5 IQR\<close> or above \<open>Q3 + 1.5 IQR\<close>, else 0;
  a missing value is never flagged. The percentiles and the fences are float64 values,
  computed with the operations of the library.
\<close>

definition iqr_flag :: "lib \<Rightarrow> cell list \<Rightarrow> cell \<Rightarrow> cell" where
  "iqr_flag L xs x =
     (case x of
        Num v \<Rightarrow>
          (let Q1 = f_quantile L (nums xs) (1 / 4);
               Q3 = f_quantile L (nums xs) (3 / 4);
               IQR = f_sub L Q3 Q1
           in if fl_lt (Finite v) (f_sub L Q1 (f_mul L (Finite (3 / 2)) IQR))
                 \<or> fl_lt (f_add L Q3 (f_mul L (Finite (3 / 2)) IQR)) (Finite v)
              then Num 1 else Num 0)
      | _ \<Rightarrow> Num 0)"

text \<open>
  A table that already has a flag column for \<^verbatim>\<open>DailyRate\<close> (as a file written by an
  earlier run has), and one that has none.
\<close>

definition rates :: dataframe where
  "rates = \<lparr>index = [0, 1, 2, 3],
            columns = [(''DailyRate'', [Num 1, Num 2, Num 3, Num 100]),
                       (''DailyRate_outlier'', [Num 1, Num 0, Num 0, Num 0])]\<rparr>"

definition rates_new :: dataframe where
  "rates_new = \<lparr>index = [0, 1, 2, 3, 4],
                columns = [(''DailyRate'', [Num 1, Num 2, Null, Num 3, Num 100])]\<rparr>"

section \<open>The identifier and age columns through the cleaning stages\<close>

text \<open>
  A frame whose \<^verbatim>\<open>EmpID\<close> and \<^verbatim>\<open>Age\<close> cells are those of the raw rows with the same
  labels: the cells of the row labelled \<open>i\<close> are \<open>E i\<close> and \<open>A i\<close>, the labels are
  distinct and among \<open>S\<close>.
\<close>

definition tracks :: "(nat \<Rightarrow> cell) \<Rightarrow> (nat \<Rightarrow> cell) \<Rightarrow> nat set \<Rightarrow> dataframe \<Rightarrow> bool" where
  "tracks E A S df =
     (map_of (columns df) ''EmpID'' = Some (map E (index df))
      \<and> map_of (columns df) ''Age'' = Some (map A (index df))
      \<and> distinct (index df) \<and> set (index df) \<subseteq> S)"

text \<open>What the rule \<^verbatim>\<open>age_range\<close> asks of a cell.\<close>

definition age_in_range :: "cell \<Rightarrow> bool" where
  "age_in_range x = (case x of Num v \<Rightarrow> 16 \<le> v \<and> v \<le> 70 | _ \<Rightarrow> False)"

text \<open>
  Three rows with a third column, \<^verbatim>\<open>EmployeeNumber\<close>: with three different numbers,
  the table the script makes of it, and with a number that two rows share.
\<close>

definition payroll :: dataframe where
  "payroll = \<lparr>index = [0, 1, 2],
              columns = [(''EmpID'', [Str ''A'', Str ''A'', Str ''B'']),
                         (''Age'', [Num 30, Num 40, Num 80]),
                         (''EmployeeNumber'', [Num 7, Num 8, Num 9])]\<rparr>"

definition payroll_clean :: dataframe where
  "payroll_clean = \<lparr>index = [0, 2],
              columns = [(''EmpID'', [Str ''A'', Str ''B'']),
                         (''Age'', [Num 30, Num 80]),
                         (''EmployeeNumber'', [Num 7, Num 9])]\<rparr>"

definition payroll_shared :: dataframe where
  "payroll_shared = \<lparr>index = [0, 1, 2],
              columns = [(''EmpID'', [Str ''A'', Str ''A'', Str ''B'']),
                         (''Age'', [Num 30, Num 40, Num 80]),
                         (''EmployeeNumber'', [Num 7, Num 8, Num 7])]\<rparr>"

section \<open>The loop, rule by rule\<close>

lemma validate_step_df: "st_df (validate_step s r) = st_df s"
  by (simp add: validate_step_def split: sum.splits)

lemma validate_loop_df: "st_df (validate_loop s rs) = st_df s"
  by (induction rs arbitrary: s) (simp_all add: validate_step_df)

lemma validate_step_violations:
  "st_violations (validate_step s r) = st_violations s @ rule_records (st_df s) r"
  by (simp add: validate_step_def rule_records_def split: sum.splits)

lemma validate_loop_violations:
  "st_violations (validate_loop s rs) =
     st_violations s @ concat (map (rule_records (st_df s)) rs)"
  by (induction rs arbitrary: s)
     (simp_all add: validate_step_violations validate_step_df)

lemma validation_report_concat:
  "validation_report df rs = concat (map (rule_records df) rs)"
  by (simp add: validation_report_def validate_def validate_loop_violations)

lemma rule_records_missing_column:
  "\<not> list_all (\<lambda>c. c \<in> set (column_names df)) (rule_cols r) \<Longrightarrow> rule_records df r = []"
  by (simp add: rule_records_def validate_step_def)

lemma rule_records_raises:
  "try_rule df r = Inl e \<Longrightarrow> rule_records df r = []"
  by (simp add: rule_records_def validate_step_def)

lemma validate_concat:
  "validate df rs = \<lparr>st_df = df, st_violations = concat (map (rule_records df) rs)\<rparr>"
  by (simp add: validate_def validate_loop_df validate_loop_violations)

section \<open>Rules that are skipped\<close>

text \<open>
  C8. A rule with a required column that the dataset does not have is skipped: it adds
  no violation record, and the validation of a rule list that declares it ends in the
  same state (the same frame and the same records, in the same order) as the validation
  of the list without it.
\<close>

theorem missing_column_rule_skipped:
  assumes "\<exists>c \<in> set (rule_cols r). c \<notin> set (column_names df)"
  shows "rule_records df r = [] \<and> validate df (rs1 @ r # rs2) = validate df (rs1 @ rs2)"
proof -
  from assms have "\<not> list_all (\<lambda>c. c \<in> set (column_names df)) (rule_cols r)"
    by (simp add: list_all_iff)
  then have "rule_records df r = []"
    by (rule rule_records_missing_column)
  then show ?thesis
    by (simp add: validate_concat)
qed

theorem missing_column_rule_skipped_witness:
  "(\<exists>c \<in> set (rule_cols (rules ref_lib ! 2)).
       c \<notin> set (column_names \<lparr>index = [0, 1], columns = [(''EmpID'', [Str ''E1'', Str ''E1''])]\<rparr>))
   \<and> rule_records \<lparr>index = [0, 1], columns = [(''EmpID'', [Str ''E1'', Str ''E1''])]\<rparr>
         (rules ref_lib ! 2) = []
   \<and> validate \<lparr>index = [0, 1], columns = [(''EmpID'', [Str ''E1'', Str ''E1''])]\<rparr>
         (take 2 (rules ref_lib) @ (rules ref_lib ! 2) # drop 3 (rules ref_lib))
       = validate \<lparr>index = [0, 1], columns = [(''EmpID'', [Str ''E1'', Str ''E1''])]\<rparr>
           (take 2 (rules ref_lib) @ drop 3 (rules ref_lib))"
proof -
  have h: "\<exists>c \<in> set (rule_cols (rules ref_lib ! 2)).
       c \<notin> set (column_names \<lparr>index = [0, 1], columns = [(''EmpID'', [Str ''E1'', Str ''E1''])]\<rparr>)"
    by (simp add: rules_def column_names_def)
  show ?thesis
    using h missing_column_rule_skipped [OF h] by blast
qed

text \<open>
  C6. A rule whose function raises adds no violation record and does not stop the loop:
  the validation of a rule list that declares it ends in the same state as the
  validation of the list without it.
\<close>

theorem raising_rule_skipped:
  assumes "rule_input df r = Inr x" and "rule_func r x = Inl e"
  shows "rule_records df r = [] \<and> validate df (rs1 @ r # rs2) = validate df (rs1 @ rs2)"
proof -
  from assms have "try_rule df r = Inl e"
    by (simp add: try_rule_def)
  then have "rule_records df r = []"
    by (rule rule_records_raises)
  then show ?thesis
    by (simp add: validate_concat)
qed


theorem raising_rule_skipped_witness:
  "rule_input \<lparr>index = [0, 1], columns = [(''Age'', [Str ''x'', Num 20])]\<rparr> (rules ref_lib ! 2)
     = Inr (Series [Str ''x'', Num 20])
   \<and> rule_func (rules ref_lib ! 2) (Series [Str ''x'', Num 20]) = Inl TypeError
   \<and> rule_records \<lparr>index = [0, 1], columns = [(''Age'', [Str ''x'', Num 20])]\<rparr>
         (rules ref_lib ! 2) = []
   \<and> validate \<lparr>index = [0, 1], columns = [(''Age'', [Str ''x'', Num 20])]\<rparr>
         (take 2 (rules ref_lib) @ (rules ref_lib ! 2) # drop 3 (rules ref_lib))
       = validate \<lparr>index = [0, 1], columns = [(''Age'', [Str ''x'', Num 20])]\<rparr>
           (take 2 (rules ref_lib) @ drop 3 (rules ref_lib))"
proof -
  have h1: "rule_input \<lparr>index = [0, 1], columns = [(''Age'', [Str ''x'', Num 20])]\<rparr>
              (rules ref_lib ! 2) = Inr (Series [Str ''x'', Num 20])"
    by (simp add: rules_def rule_input_def getitem_def)
  have h2: "rule_func (rules ref_lib ! 2) (Series [Str ''x'', Num 20]) = Inl TypeError"
    by (simp add: rules_def on_series_def is_positive_def cmp_scalar_def)
  show ?thesis
    using h1 h2 raising_rule_skipped [OF h1 h2] by blast
qed

section \<open>The records of one rule\<close>

lemma filter_fillna_False:
  "map fst (filter (\<lambda>(i, b). \<not> b) (zip idx (fillna_False msk))) = not_true_labels idx msk"
proof (induction idx arbitrary: msk)
  case Nil
  then show ?case by (simp add: not_true_labels_def)
next
  case (Cons i idx)
  show ?case
  proof (cases msk)
    case Nil
    then show ?thesis by (simp add: not_true_labels_def fillna_False_def)
  next
    case (Cons v vs)
    with Cons.IH [of vs] show ?thesis
      by (cases v) (auto simp: not_true_labels_def fillna_False_def)
  qed
qed

lemma index_where_not_fillna:
  "index_where_not idx (fillna_False msk) =
     (if length msk \<noteq> length idx then Inl IndexError else Inr (not_true_labels idx msk))"
proof -
  have "length (fillna_False msk) = length msk"
    by (simp add: fillna_False_def)
  then show ?thesis
    by (simp add: index_where_not_def filter_fillna_False)
qed

lemma rule_records_mask:
  "rule_records df r =
     (case rule_mask df r of
        None \<Rightarrow> []
      | Some msk \<Rightarrow> map (make_violation df r) (not_true_labels (index df) msk))"
  by (simp add: rule_records_def validate_step_def rule_mask_def try_rule_def
        index_where_not_fillna split: sum.splits)

lemma nth_in_not_true_labels:
  assumes "length msk = length idx" and "i < length idx" and "msk ! i \<noteq> Some True"
  shows "idx ! i \<in> set (not_true_labels idx msk)"
proof -
  from assms have "(idx ! i, msk ! i) \<in> set (zip idx msk)"
    by (auto simp: set_zip)
  with assms(3) have "(idx ! i, msk ! i) \<in> set (filter (\<lambda>(i, v). \<not> (v = Some True)) (zip idx msk))"
    by simp
  then have "fst (idx ! i, msk ! i) \<in> fst ` set (filter (\<lambda>(i, v). \<not> (v = Some True)) (zip idx msk))"
    by (rule imageI)
  then show ?thesis
    by (simp add: not_true_labels_def)
qed

lemma rule_mask_length: "rule_mask df r = Some msk \<Longrightarrow> length msk = length (index df)"
  by (auto simp: rule_mask_def split: if_splits sum.splits)

lemma v_index_make_violation: "map (v_index \<circ> make_violation df r) ls = ls"
  by (induction ls) (simp_all add: make_violation_def)

section \<open>Which rows get a violation record\<close>

text \<open>
  C1, as the code has it. \<^verbatim>\<open>~mask.fillna(False)\<close> turns a missing verdict into a
  failure: the rows that get a Violation Record of a rule are the rows whose verdict is
  not an explicit \<open>True\<close>, in row order, so a row with a missing verdict gets one, as a
  row with an explicit \<open>False\<close> does.
\<close>

theorem null_verdict_recorded:
  assumes "rule_mask df r = Some msk"
  shows "map v_index (rule_records df r) = not_true_labels (index df) msk
         \<and> (\<forall>i < length msk. msk ! i = None \<longrightarrow>
               index df ! i \<in> set (map v_index (rule_records df r)))"
proof -
  have recs: "map v_index (rule_records df r) = not_true_labels (index df) msk"
    using assms by (simp add: rule_records_mask v_index_make_violation)
  have len: "length msk = length (index df)"
    using assms by (rule rule_mask_length)
  have "index df ! i \<in> set (not_true_labels (index df) msk)"
    if "i < length msk" and "msk ! i = None" for i
    using that len by (intro nth_in_not_true_labels) simp_all
  with recs show ?thesis by simp
qed

lemma lower_Sales_Manager: "lower ''Sales Manager'' = ''sales manager''"
  by code_simp

lemma manager_rule_mask2: "rule_mask \<lparr>index = [0, 1], columns = [(''JobRole'', [Str ''Sales Manager'', Null])]\<rparr> manager_rule
         = Some [Some True, None]"
  by (simp add: rule_mask_def manager_rule_def column_names_def rule_input_def getitem_def
        on_series_def str_accessor_def lower_Sales_Manager)

text \<open>
  C1 as stated fails: the verdict of the second row is missing, and the report holds a
  record for that row.
\<close>

theorem null_verdict_counterexample:
  "rule_mask \<lparr>index = [0, 1], columns = [(''JobRole'', [Str ''Sales Manager'', Null])]\<rparr> manager_rule
     = Some [Some True, None]
   \<and> map v_index (validation_report
         \<lparr>index = [0, 1], columns = [(''JobRole'', [Str ''Sales Manager'', Null])]\<rparr> [manager_rule]) = [1]"
  using manager_rule_mask2
  by (simp add: validation_report_concat rule_records_mask not_true_labels_def make_violation_def)


theorem null_verdict_recorded_witness:
  "rule_mask \<lparr>index = [0, 1], columns = [(''JobRole'', [Str ''Sales Manager'', Null])]\<rparr> manager_rule
     = Some [Some True, None]
   \<and> map v_index (rule_records
         \<lparr>index = [0, 1], columns = [(''JobRole'', [Str ''Sales Manager'', Null])]\<rparr> manager_rule)
       = not_true_labels [0, 1] [Some True, None]
   \<and> 1 \<in> set (map v_index (rule_records
         \<lparr>index = [0, 1], columns = [(''JobRole'', [Str ''Sales Manager'', Null])]\<rparr> manager_rule))"
  using manager_rule_mask2 null_verdict_recorded [OF manager_rule_mask2]
  by (auto simp: not_true_labels_def)

lemma length_not_true_labels:
  "length idx = length msk \<Longrightarrow>
     length (not_true_labels idx msk) = length (filter (\<lambda>v. \<not> (v = Some True)) msk)"
  by (induction idx msk rule: list_induct2) (simp_all add: not_true_labels_def)

lemma length_rule_records:
  "length (rule_records df r) =
     (case rule_mask df r of
        None \<Rightarrow> 0
      | Some msk \<Rightarrow> length (filter (\<lambda>v. \<not> (v = Some True)) msk))"
proof (cases "rule_mask df r")
  case None
  then show ?thesis by (simp add: rule_records_mask)
next
  case (Some msk)
  then have "length (index df) = length msk"
    by (simp add: rule_mask_length)
  with Some show ?thesis
    by (simp add: rule_records_mask length_not_true_labels)
qed

text \<open>
  C7, as the code has it. The report is the concatenation, in declaration order of the
  rules, of the records of each evaluated rule, one per row whose verdict is not an
  explicit \<open>True\<close> (explicit \<open>False\<close> or missing), in row order; its length is the sum
  over the evaluated rules of the number of such rows.
\<close>

theorem report_rule_major:
  "validation_report df rs =
     concat (map (\<lambda>r. case rule_mask df r of
                         None \<Rightarrow> []
                       | Some msk \<Rightarrow> map (make_violation df r) (not_true_labels (index df) msk)) rs)
   \<and> length (validation_report df rs) =
       sum_list (map (\<lambda>r. case rule_mask df r of
                             None \<Rightarrow> 0
                           | Some msk \<Rightarrow> length (filter (\<lambda>v. \<not> (v = Some True)) msk)) rs)"
proof -
  have "concat (map (rule_records df) rs) =
          concat (map (\<lambda>r. case rule_mask df r of
                      None \<Rightarrow> []
                    | Some msk \<Rightarrow> map (make_violation df r) (not_true_labels (index df) msk)) rs)"
    by (induction rs) (simp_all add: rule_records_mask)
  moreover have "length (concat (map (rule_records df) rs)) =
          sum_list (map (\<lambda>r. case rule_mask df r of
                             None \<Rightarrow> 0
                           | Some msk \<Rightarrow> length (filter (\<lambda>v. \<not> (v = Some True)) msk)) rs)"
    by (induction rs) (simp_all add: length_rule_records)
  ultimately show ?thesis
    by (simp add: validation_report_concat)
qed

lemma manager_rule_mask3: "rule_mask \<lparr>index = [0, 1, 2], columns = [(''JobRole'', [Str ''Sales Manager'', Null, Null])]\<rparr>
          manager_rule = Some [Some True, None, None]"
  by (simp add: rule_mask_def manager_rule_def column_names_def rule_input_def getitem_def
        on_series_def str_accessor_def lower_Sales_Manager)

text \<open>
  C7 as stated fails: no verdict is an explicit \<open>False\<close>, and the report has two rows.
\<close>

theorem report_count_counterexample:
  "rule_mask \<lparr>index = [0, 1, 2], columns = [(''JobRole'', [Str ''Sales Manager'', Null, Null])]\<rparr>
     manager_rule = Some [Some True, None, None]
   \<and> false_labels [0, 1, 2] [Some True, None, None] = []
   \<and> length (validation_report
         \<lparr>index = [0, 1, 2], columns = [(''JobRole'', [Str ''Sales Manager'', Null, Null])]\<rparr>
         [manager_rule]) = 2"
  using manager_rule_mask3
  by (simp add: validation_report_concat length_rule_records false_labels_def)

section \<open>The dataset during validation\<close>

lemma pipeline_roster:
  "pipeline ref_lib roster = Inr \<lparr>interim = roster_clean, final = roster_clean, report = roster_report\<rparr>"
  by code_simp

text \<open>
  C9. Validation never changes the dataset: the state of the loop holds the frame it was
  started with after any list of rules, and in every run of the script that completes,
  the final dataset written after validation equals the interim dataset written before
  it.
\<close>

theorem validation_keeps_dataset:
  assumes "pipeline L raw = Inr out"
  shows "final out = interim out \<and> st_df (validate df rs) = df"
proof -
  have keep: "st_df (validate d rs') = d" for d rs'
    by (simp add: validate_def validate_loop_df)
  from assms have "final out = interim out"
    by (auto simp: pipeline_def Let_def keep split: sum.splits)
  with keep show ?thesis by simp
qed

theorem validation_keeps_dataset_witness:
  "pipeline ref_lib roster = Inr \<lparr>interim = roster_clean, final = roster_clean, report = roster_report\<rparr>
   \<and> final \<lparr>interim = roster_clean, final = roster_clean, report = roster_report\<rparr>
       = interim \<lparr>interim = roster_clean, final = roster_clean, report = roster_report\<rparr>
   \<and> st_df (validate roster_clean (rules ref_lib)) = roster_clean"
  using pipeline_roster validation_keeps_dataset [OF pipeline_roster, of roster_clean "rules ref_lib"]
  by simp

section \<open>Missing e-mail addresses\<close>

lemma nan_no_email: "re_match_anchored email_pattern ''nan'' = False"
  by code_simp

lemma map_of_column_names: "map_of (columns df) c = Some xs \<Longrightarrow> c \<in> set (column_names df)"
  by (metis column_names_def map_of_eq_None_iff option.distinct(1) set_map)

lemma email_rule_mask:
  assumes "map_of (columns df) ''WorkEmail'' = Some xs" and "length xs = length (index df)"
  shows "rule_mask df (rules L ! 5) =
           Some (map (\<lambda>x. Some (re_match_anchored email_pattern (astype_str L x))) xs)"
  using assms map_of_column_names [OF assms(1)]
  by (simp add: rule_mask_def rules_def rule_input_def getitem_def on_series_def match_regex_def)

text \<open>
  C10. In a dataset with a \<^verbatim>\<open>WorkEmail\<close> column, every row whose \<^verbatim>\<open>WorkEmail\<close> is
  missing gets a Violation Record of the rule \<^verbatim>\<open>email_format\<close>: \<^verbatim>\<open>astype(str)\<close> makes
  the missing value the text \<^verbatim>\<open>nan\<close>, which does not match the pattern.
\<close>

theorem missing_email_is_violation:
  assumes "map_of (columns df) ''WorkEmail'' = Some xs" and "length xs = length (index df)"
    and "i < length xs" and "xs ! i = Null"
  shows "\<exists>v \<in> set (validation_report df (rules L)).
           v_index v = index df ! i \<and> v_rule v = ''email_format'' \<and> v_columns v = ''WorkEmail''
           \<and> v_message v = ''Invalid email format''"
proof -
  let ?r = "rules L ! 5"
  let ?msk = "map (\<lambda>x. Some (re_match_anchored email_pattern (astype_str L x))) xs"
  have m: "rule_mask df ?r = Some ?msk"
    using assms(1,2) by (rule email_rule_mask)
  have "?msk ! i = Some False"
    using assms(3,4) by (simp add: astype_str_def nan_no_email)
  then have "index df ! i \<in> set (not_true_labels (index df) ?msk)"
    using assms(2,3) by (intro nth_in_not_true_labels) simp_all
  then have "make_violation df ?r (index df ! i) \<in> set (rule_records df ?r)"
    by (simp add: rule_records_mask m)
  moreover have "?r \<in> set (rules L)"
    by (simp add: rules_def)
  ultimately have "make_violation df ?r (index df ! i) \<in> set (validation_report df (rules L))"
    by (auto simp: validation_report_concat)
  then show ?thesis
    by (intro bexI [of _ "make_violation df ?r (index df ! i)"])
       (simp_all add: make_violation_def rules_def loc_to_dict_def)
qed

theorem missing_email_is_violation_witness:
  "map_of (columns \<lparr>index = [0, 1], columns = [(''WorkEmail'', [Str ''a@b.com'', Null])]\<rparr>)
       ''WorkEmail'' = Some [Str ''a@b.com'', Null]
   \<and> length [Str ''a@b.com'', Null]
       = length (index \<lparr>index = [0, 1], columns = [(''WorkEmail'', [Str ''a@b.com'', Null])]\<rparr>)
   \<and> 1 < length [Str ''a@b.com'', Null]
   \<and> [Str ''a@b.com'', Null] ! 1 = Null
   \<and> (\<exists>v \<in> set (validation_report
                   \<lparr>index = [0, 1], columns = [(''WorkEmail'', [Str ''a@b.com'', Null])]\<rparr>
                   (rules ref_lib)).
         v_index v = index \<lparr>index = [0, 1], columns = [(''WorkEmail'', [Str ''a@b.com'', Null])]\<rparr> ! 1
         \<and> v_rule v = ''email_format'' \<and> v_columns v = ''WorkEmail''
         \<and> v_message v = ''Invalid email format'')"
proof -
  have h1: "map_of (columns \<lparr>index = [0, 1], columns = [(''WorkEmail'', [Str ''a@b.com'', Null])]\<rparr>)
       ''WorkEmail'' = Some [Str ''a@b.com'', Null]"
    by simp
  have h2: "length [Str ''a@b.com'', Null]
       = length (index \<lparr>index = [0, 1], columns = [(''WorkEmail'', [Str ''a@b.com'', Null])]\<rparr>)"
    by simp
  have h3: "1 < length [Str ''a@b.com'', Null]"
    by simp
  have h4: "[Str ''a@b.com'', Null] ! 1 = Null"
    by simp
  show ?thesis
    using h1 h2 h3 h4 missing_email_is_violation [OF h1 h2 h3 h4, of ref_lib] by blast
qed

section \<open>Hire date and termination date\<close>

lemma v_rule_rule_records: "v \<in> set (rule_records df r) \<Longrightarrow> v_rule v = rule_name r"
  by (auto simp: rule_records_mask make_violation_def split: option.splits)

lemma filter_rule_records:
  "filter (\<lambda>v. v_rule v = n) (rule_records df r) = (if rule_name r = n then rule_records df r else [])"
  by (auto simp: filter_empty_conv v_rule_rule_records intro: filter_True)

lemma not_true_labels_map:
  "not_true_labels idx (map g ys) = map fst (filter (\<lambda>(i, y). \<not> (g y = Some True)) (zip idx ys))"
proof (induction idx arbitrary: ys)
  case Nil
  then show ?case by (simp add: not_true_labels_def)
next
  case (Cons i idx)
  then show ?case
    by (cases ys) (auto simp: not_true_labels_def)
qed

lemma not_le_datetime: "(\<not> le_datetime a b) = date_violation a b"
  by (auto simp: le_datetime_def date_violation_def split: option.splits)

lemma hire_rule_mask:
  assumes "map_of (columns df) ''HireDate'' = Some h"
    and "map_of (columns df) ''TerminationDate'' = Some t"
    and "to_datetime L h = Inr hs" and "to_datetime L t = Inr ts"
    and "length hs = length (index df)" and "length ts = length (index df)"
  shows "rule_mask df (rules L ! 6) = Some (map (\<lambda>(a, b). Some (le_datetime a b)) (zip hs ts))"
  using assms map_of_column_names [OF assms(1)] map_of_column_names [OF assms(2)]
  by (simp add: rule_mask_def rules_def rule_input_def getitem_def on_frame_def
        hire_before_termination_def)

lemma hire_records_of_report:
  "filter (\<lambda>v. v_rule v = ''hire_before_termination'') (validation_report df (rules L))
     = rule_records df (rules L ! 6)"
  by (simp add: validation_report_concat rules_def filter_rule_records)

text \<open>
  C2, as the code has it. A comparison with \<^verbatim>\<open>NaT\<close> is an explicit \<open>False\<close>, so when
  both conversions return, the rule \<^verbatim>\<open>hire_before_termination\<close> reports, in row order,
  exactly the rows where a date did not parse or the parsed hire date is strictly after
  the parsed termination date; a row with equal parsed dates is not reported.
\<close>

theorem hire_before_termination_records:
  assumes "map_of (columns df) ''HireDate'' = Some h"
    and "map_of (columns df) ''TerminationDate'' = Some t"
    and "to_datetime L h = Inr hs" and "to_datetime L t = Inr ts"
    and "length hs = length (index df)" and "length ts = length (index df)"
  shows "map v_index (filter (\<lambda>v. v_rule v = ''hire_before_termination'')
                        (validation_report df (rules L)))
         = map fst (filter (\<lambda>(i, a, b). date_violation a b) (zip (index df) (zip hs ts)))"
proof -
  have "map v_index (rule_records df (rules L ! 6))
          = not_true_labels (index df) (map (\<lambda>(a, b). Some (le_datetime a b)) (zip hs ts))"
    by (simp add: rule_records_mask hire_rule_mask [OF assms] v_index_make_violation)
  also have "\<dots> = map fst (filter (\<lambda>(i, y). \<not> ((case y of (a, b) \<Rightarrow> Some (le_datetime a b)) = Some True))
                      (zip (index df) (zip hs ts)))"
    by (rule not_true_labels_map)
  also have "\<dots> = map fst (filter (\<lambda>(i, a, b). date_violation a b) (zip (index df) (zip hs ts)))"
    by (rule arg_cong [where f = "map fst"], rule filter_cong) (auto simp: not_le_datetime [symmetric])
  finally show ?thesis
    by (simp add: hire_records_of_report)
qed

lemma iso_date_2020: "iso_date (Str ''2020-01-01'') = Some 20200101"
  by (simp add: iso_date_def parse_nat_def digit_of_def days_in_month_def)

lemma iso_date_2019: "iso_date (Str ''2019-01-01'') = Some 20190101"
  by (simp add: iso_date_def parse_nat_def digit_of_def days_in_month_def)

lemma tenure_dates:
  "to_datetime ref_lib [Str ''2020-01-01'', Str ''2020-01-01'', Str ''2020-01-01'']
     = Inr [Some 20200101, Some 20200101, Some 20200101]"
  "to_datetime ref_lib [Str ''2019-01-01'', Str ''2020-01-01'', Null]
     = Inr [Some 20190101, Some 20200101, None]"
  by (simp_all add: ref_lib_def iso_date_2020 iso_date_2019) (simp add: iso_date_def)


theorem hire_before_termination_records_witness:
  "map_of (columns tenure) ''HireDate'' = Some [Str ''2020-01-01'', Str ''2020-01-01'', Str ''2020-01-01'']
   \<and> map_of (columns tenure) ''TerminationDate'' = Some [Str ''2019-01-01'', Str ''2020-01-01'', Null]
   \<and> to_datetime ref_lib [Str ''2020-01-01'', Str ''2020-01-01'', Str ''2020-01-01'']
       = Inr [Some 20200101, Some 20200101, Some 20200101]
   \<and> to_datetime ref_lib [Str ''2019-01-01'', Str ''2020-01-01'', Null]
       = Inr [Some 20190101, Some 20200101, None]
   \<and> length [Some 20200101, Some 20200101, Some (20200101 :: int)] = length (index tenure)
   \<and> length [Some 20190101, Some 20200101, None :: int option] = length (index tenure)
   \<and> map v_index (filter (\<lambda>v. v_rule v = ''hire_before_termination'')
                     (validation_report tenure (rules ref_lib)))
       = map fst (filter (\<lambda>(i, a, b). date_violation a b)
           (zip (index tenure) (zip [Some 20200101, Some 20200101, Some 20200101]
                                    [Some 20190101, Some 20200101, None])))"
proof -
  have h1: "map_of (columns tenure) ''HireDate''
              = Some [Str ''2020-01-01'', Str ''2020-01-01'', Str ''2020-01-01'']"
    by (simp add: tenure_def)
  have h2: "map_of (columns tenure) ''TerminationDate''
              = Some [Str ''2019-01-01'', Str ''2020-01-01'', Null]"
    by (simp add: tenure_def)
  have h5: "length [Some 20200101, Some 20200101, Some (20200101 :: int)] = length (index tenure)"
    by (simp add: tenure_def)
  have h6: "length [Some 20190101, Some 20200101, None :: int option] = length (index tenure)"
    by (simp add: tenure_def)
  show ?thesis
    using h1 h2 tenure_dates h5 h6
      hire_before_termination_records [OF h1 h2 tenure_dates h5 h6]
    by blast
qed

text \<open>
  C2 as stated fails: the third row has no termination date, and it is reported, with
  the first row (hired after the termination); the second row, with equal dates, is not.
\<close>

theorem hire_before_termination_counterexample:
  "to_datetime ref_lib [Str ''2019-01-01'', Str ''2020-01-01'', Null]
     = Inr [Some 20190101, Some 20200101, None]
   \<and> map v_index (filter (\<lambda>v. v_rule v = ''hire_before_termination'')
                     (validation_report tenure (rules ref_lib))) = [0, 2]"
proof -
  have "rule_mask tenure (rules ref_lib ! 6)
          = Some (map (\<lambda>(a, b). Some (le_datetime a b))
                    (zip [Some 20200101, Some 20200101, Some 20200101]
                         [Some 20190101, Some 20200101, None]))"
    by (rule hire_rule_mask [OF _ _ tenure_dates]) (simp_all add: tenure_def)
  then have "map v_index (rule_records tenure (rules ref_lib ! 6)) = [0, 2]"
    by (simp add: rule_records_mask not_true_labels_def le_datetime_def make_violation_def
          tenure_def)
  then show ?thesis
    by (simp add: hire_records_of_report tenure_dates)
qed

section \<open>Missing employee identifiers\<close>

text \<open>
  C3. On the raw table the rule \<^verbatim>\<open>empid_not_null\<close> reports the row without \<^verbatim>\<open>EmpID\<close>.
  In a run of the script the column has been converted with \<^verbatim>\<open>astype(str)\<close> before
  validation: the missing value is the text \<^verbatim>\<open>nan\<close>, the rule finds no missing value,
  and the report is empty.
\<close>

theorem empid_null_not_reported:
  "map v_index (rule_records staff (rules ref_lib ! 0)) = [1]
   \<and> pipeline ref_lib staff = Inr \<lparr>interim = staff_clean, final = staff_clean, report = []\<rparr>"
  by code_simp

section \<open>Outlier flags\<close>

lemma nums_nonempty: "Num v \<in> set xs \<Longrightarrow> nums xs \<noteq> []"
  by (induction xs rule: nums.induct) auto

lemma quantile_numeric:
  assumes "\<not> list_ex is_Str xs"
  shows "quantile L xs q = Inr (if nums xs = [] then NaN else f_quantile L (nums xs) q)"
  using assms by (simp add: quantile_def)

lemma map_of_replace:
  "map_of (map (\<lambda>(n, ys'). if n = c then (n, ys) else (n, ys')) cols) k
     = (if k = c then (if c \<in> fst ` set cols then Some ys else None) else map_of cols k)"
  by (induction cols) force+

lemma map_of_setitem:
  "map_of (columns (setitem df c ys)) k = (if k = c then Some ys else map_of (columns df) k)"
proof (cases "c \<in> set (column_names df)")
  case True
  then show ?thesis
    by (simp add: setitem_def column_names_def map_of_replace)
next
  case False
  then have "map_of (columns df) c = None"
    by (simp add: column_names_def map_of_eq_None_iff)
  with False show ?thesis
    by (simp add: setitem_def map_add_def split: option.splits)
qed

lemma index_setitem: "index (setitem df c ys) = index df"
  by (simp add: setitem_def)

lemma names_setitem:
  "column_names (setitem df c ys)
     = (if c \<in> set (column_names df) then column_names df else column_names df @ [c])"
  by (auto simp: setitem_def column_names_def comp_def split: prod.splits)

lemma columns_setitem_new:
  "c \<notin> set (column_names df) \<Longrightarrow> columns (setitem df c ys) = columns df @ [(c, ys)]"
  by (simp add: setitem_def)

lemma flags_agree:
  assumes x: "x \<in> set xs"
  shows "astype_int
           (cell_lt x (f_sub L (if nums xs = [] then NaN else f_quantile L (nums xs) (1 / 4))
                        (f_mul L (Finite (3 / 2))
                           (f_sub L (if nums xs = [] then NaN else f_quantile L (nums xs) (3 / 4))
                                    (if nums xs = [] then NaN else f_quantile L (nums xs) (1 / 4)))))
            \<or> cell_gt x (f_add L (if nums xs = [] then NaN else f_quantile L (nums xs) (3 / 4))
                        (f_mul L (Finite (3 / 2))
                           (f_sub L (if nums xs = [] then NaN else f_quantile L (nums xs) (3 / 4))
                                    (if nums xs = [] then NaN else f_quantile L (nums xs) (1 / 4))))))
         = iqr_flag L xs x"
proof (cases x)
  case Null
  then show ?thesis by (simp add: cell_lt_def cell_gt_def astype_int_def iqr_flag_def)
next
  case (Str s)
  then show ?thesis by (simp add: cell_lt_def cell_gt_def astype_int_def iqr_flag_def)
next
  case (Num v)
  with x have "nums xs \<noteq> []"
    by (auto dest: nums_nonempty)
  with Num show ?thesis
    by (simp add: cell_lt_def cell_gt_def astype_int_def iqr_flag_def Let_def)
qed

lemma detect_outliers_iqr_flags:
  assumes col: "map_of (columns data) column = Some xs" and num: "\<not> list_ex is_Str xs"
  shows "detect_outliers_iqr L data column
           = Inr (setitem data (column @ ''_outlier'') (map (iqr_flag L xs) xs))"
proof -
  let ?Q1 = "if nums xs = [] then NaN else f_quantile L (nums xs) (1 / 4)"
  let ?Q3 = "if nums xs = [] then NaN else f_quantile L (nums xs) (3 / 4)"
  let ?flag = "\<lambda>x. astype_int
           (cell_lt x (f_sub L ?Q1 (f_mul L (Finite (3 / 2)) (f_sub L ?Q3 ?Q1)))
            \<or> cell_gt x (f_add L ?Q3 (f_mul L (Finite (3 / 2)) (f_sub L ?Q3 ?Q1))))"
  have "map ?flag xs = map (iqr_flag L xs) xs"
    by (rule map_cong [OF refl]) (rule flags_agree)
  moreover have "detect_outliers_iqr L data column
        = Inr (setitem data (column @ ''_outlier'') (map ?flag xs))"
    using col by (simp add: detect_outliers_iqr_def getitem_def Let_def quantile_numeric [OF num])
  ultimately show ?thesis
    by (simp only:)
qed

lemma iqr_flag_01: "iqr_flag L xs x = Num 0 \<or> iqr_flag L xs x = Num 1"
  by (simp add: iqr_flag_def Let_def split: cell.splits)

lemma iqr_flag_Null: "iqr_flag L xs Null = Num 0"
  by (simp add: iqr_flag_def)

text \<open>
  C5, as the code has it. For a numeric column of the dataset, \<^verbatim>\<open>detect_outliers_iqr\<close>
  returns the dataset with the same rows, with every column of another name than
  \<^verbatim>\<open><column>_outlier\<close> unchanged, and with the column \<^verbatim>\<open><column>_outlier\<close> holding
  the flag of each row as the specification words it, the quartiles and fences being the
  float64 values the library computes (always 0 or 1, and 0 at a missing value). When
  the dataset has no column of that name, the column is new and the last one; when it
  has one, that column is overwritten and no column is added.
\<close>

theorem outlier_flags:
  assumes col: "map_of (columns data) column = Some xs" and num: "\<not> list_ex is_Str xs"
  shows "\<exists>data'. detect_outliers_iqr L data column = Inr data'
           \<and> index data' = index data
           \<and> (\<forall>c. c \<noteq> column @ ''_outlier'' \<longrightarrow> map_of (columns data') c = map_of (columns data) c)
           \<and> map_of (columns data') (column @ ''_outlier'') = Some (map (iqr_flag L xs) xs)
           \<and> (column @ ''_outlier'' \<notin> set (column_names data) \<longrightarrow>
                 columns data' = columns data @ [(column @ ''_outlier'', map (iqr_flag L xs) xs)])
           \<and> (column @ ''_outlier'' \<in> set (column_names data) \<longrightarrow>
                 column_names data' = column_names data)
           \<and> (\<forall>x. iqr_flag L xs x = Num 0 \<or> iqr_flag L xs x = Num 1)
           \<and> iqr_flag L xs Null = Num 0"
  by (rule exI [of _ "setitem data (column @ ''_outlier'') (map (iqr_flag L xs) xs)"])
     (simp add: detect_outliers_iqr_flags [OF col num] index_setitem map_of_setitem
        columns_setitem_new names_setitem iqr_flag_01 iqr_flag_Null)

text \<open>
  C5 as stated fails on a dataset that already has the flag column: the column is
  overwritten, so an original column changes and no column is added. (Every value of
  this computation is a binary fraction, so float64 computes it without rounding.)
\<close>

theorem outlier_flags_counterexample:
  "map_of (columns rates) ''DailyRate_outlier'' = Some [Num 1, Num 0, Num 0, Num 0]
   \<and> detect_outliers_iqr ref_lib rates ''DailyRate''
       = Inr \<lparr>index = [0, 1, 2, 3],
              columns = [(''DailyRate'', [Num 1, Num 2, Num 3, Num 100]),
                         (''DailyRate_outlier'', [Num 0, Num 0, Num 0, Num 1])]\<rparr>"
  by code_simp

lemma iqr_flags_rates_new:
  "map (iqr_flag ref_lib [Num 1, Num 2, Null, Num 3, Num 100]) [Num 1, Num 2, Null, Num 3, Num 100]
     = [Num 0, Num 0, Num 0, Num 0, Num 1]"
  by code_simp


theorem outlier_flags_witness:
  "map_of (columns rates_new) ''DailyRate'' = Some [Num 1, Num 2, Null, Num 3, Num 100]
   \<and> \<not> list_ex is_Str [Num 1, Num 2, Null, Num 3, Num 100]
   \<and> (\<exists>data'. detect_outliers_iqr ref_lib rates_new ''DailyRate'' = Inr data'
          \<and> index data' = index rates_new
          \<and> map_of (columns data') ''DailyRate'' = map_of (columns rates_new) ''DailyRate''
          \<and> map_of (columns data') ''DailyRate_outlier''
              = Some (map (iqr_flag ref_lib [Num 1, Num 2, Null, Num 3, Num 100])
                        [Num 1, Num 2, Null, Num 3, Num 100])
          \<and> columns data'
              = columns rates_new
                @ [(''DailyRate_outlier'',
                    map (iqr_flag ref_lib [Num 1, Num 2, Null, Num 3, Num 100])
                      [Num 1, Num 2, Null, Num 3, Num 100])]
          \<and> iqr_flag ref_lib [Num 1, Num 2, Null, Num 3, Num 100] Null = Num 0)"
proof -
  have h1: "map_of (columns rates_new) ''DailyRate'' = Some [Num 1, Num 2, Null, Num 3, Num 100]"
    by (simp add: rates_new_def)
  have h2: "\<not> list_ex is_Str [Num 1, Num 2, Null, Num 3, Num 100]"
    by simp
  have new: "''DailyRate'' @ ''_outlier'' \<notin> set (column_names rates_new)"
    by (simp add: rates_new_def column_names_def)
  have other: "''DailyRate'' \<noteq> ''DailyRate'' @ ''_outlier''"
    by simp
  from outlier_flags [OF h1 h2, of ref_lib] obtain d where
    run: "detect_outliers_iqr ref_lib rates_new ''DailyRate'' = Inr d"
    and idx: "index d = index rates_new"
    and keep: "\<forall>c. c \<noteq> ''DailyRate'' @ ''_outlier'' \<longrightarrow>
                 map_of (columns d) c = map_of (columns rates_new) c"
    and flag: "map_of (columns d) (''DailyRate'' @ ''_outlier'')
                 = Some (map (iqr_flag ref_lib [Num 1, Num 2, Null, Num 3, Num 100])
                           [Num 1, Num 2, Null, Num 3, Num 100])"
    and app: "''DailyRate'' @ ''_outlier'' \<notin> set (column_names rates_new) \<longrightarrow>
                 columns d = columns rates_new
                   @ [(''DailyRate'' @ ''_outlier'',
                       map (iqr_flag ref_lib [Num 1, Num 2, Null, Num 3, Num 100])
                         [Num 1, Num 2, Null, Num 3, Num 100])]"
    and null: "iqr_flag ref_lib [Num 1, Num 2, Null, Num 3, Num 100] Null = Num 0"
    by blast
  from keep other have same: "map_of (columns d) ''DailyRate'' = map_of (columns rates_new) ''DailyRate''"
    by blast
  from app new have cols: "columns d = columns rates_new
                   @ [(''DailyRate'' @ ''_outlier'',
                       map (iqr_flag ref_lib [Num 1, Num 2, Null, Num 3, Num 100])
                         [Num 1, Num 2, Null, Num 3, Num 100])]"
    by blast
  have ex: "\<exists>data'. detect_outliers_iqr ref_lib rates_new ''DailyRate'' = Inr data'
          \<and> index data' = index rates_new
          \<and> map_of (columns data') ''DailyRate'' = map_of (columns rates_new) ''DailyRate''
          \<and> map_of (columns data') ''DailyRate_outlier''
              = Some (map (iqr_flag ref_lib [Num 1, Num 2, Null, Num 3, Num 100])
                        [Num 1, Num 2, Null, Num 3, Num 100])
          \<and> columns data'
              = columns rates_new
                @ [(''DailyRate_outlier'',
                    map (iqr_flag ref_lib [Num 1, Num 2, Null, Num 3, Num 100])
                      [Num 1, Num 2, Null, Num 3, Num 100])]
          \<and> iqr_flag ref_lib [Num 1, Num 2, Null, Num 3, Num 100] Null = Num 0"
    using run idx same flag cols null by (intro exI [of _ d]) simp
  with h1 h2 show ?thesis
    by blast
qed


section \<open>The rule on missing identifiers in a run\<close>

lemma not_true_labels_all_true:
  assumes "\<forall>v \<in> set msk. v = Some True"
  shows "not_true_labels idx msk = []"
  using assms by (auto simp: not_true_labels_def filter_empty_conv dest: set_zip_rightD)

lemma empid_rule_silent:
  assumes "case map_of (columns df) ''EmpID'' of None \<Rightarrow> True | Some xs \<Rightarrow> Null \<notin> set xs"
  shows "rule_records df (rules L ! 0) = []"
proof (cases "map_of (columns df) ''EmpID''")
  case None
  then have "''EmpID'' \<notin> set (column_names df)"
    by (simp add: column_names_def map_of_eq_None_iff)
  then show ?thesis
    by (simp add: rule_records_missing_column rules_def)
next
  case (Some xs)
  with assms have "\<forall>v \<in> set (map (\<lambda>x. Some (\<not> (x = Null))) xs). v = Some True"
    by auto
  then have "not_true_labels (index df) (map (\<lambda>x. Some (\<not> (x = Null))) xs) = []"
    by (rule not_true_labels_all_true)
  with Some show ?thesis
    by (simp add: rule_records_mask rule_mask_def rules_def rule_input_def getitem_def
          on_series_def not_null_def)
qed

lemma empid_after_astype_str:
  "case map_of (columns (update_col (map (\<lambda>x. Str (astype_str L x))) ''EmpID'' df)) ''EmpID'' of
     None \<Rightarrow> True | Some xs \<Rightarrow> Null \<notin> set xs"
  by (cases "map_of (columns df) ''EmpID''") (auto simp: update_col_def map_of_setitem)

lemma outlier_step_keeps_empid:
  assumes "outlier_step L col df = Inr df'"
  shows "map_of (columns df') ''EmpID'' = map_of (columns df) ''EmpID''"
proof -
  have ne: "''EmpID'' \<noteq> col @ ''_outlier''"
    by (auto dest: arg_cong [where f = length])
  from assms show ?thesis
    by (auto simp: outlier_step_def detect_outliers_iqr_def Let_def map_of_setitem ne
          split: if_splits sum.splits)
qed

lemma outlier_steps_keep_empid:
  "fold_err (outlier_step L) cols df = Inr df' \<Longrightarrow>
     map_of (columns df') ''EmpID'' = map_of (columns df) ''EmpID''"
proof (induction cols arbitrary: df)
  case Nil
  then show ?case by simp
next
  case (Cons c cols)
  then show ?case
    by (auto split: sum.splits dest: outlier_step_keeps_empid)
qed

lemma empid_records_of_report:
  "filter (\<lambda>v. v_rule v = ''empid_not_null'') (validation_report df (rules L))
     = rule_records df (rules L ! 0)"
  by (simp add: validation_report_concat rules_def filter_rule_records)

text \<open>
  In no run of the script that completes does the report hold a record of the rule
  \<^verbatim>\<open>empid_not_null\<close>, whatever the raw table.
\<close>

text \<open>
  In no run of the script that completes does the report hold a record of the rule
  \<^verbatim>\<open>empid_not_null\<close>, whatever the raw table.
\<close>

lemma empid_not_null_silent:
  assumes "pipeline L raw = Inr out"
  shows "filter (\<lambda>v. v_rule v = ''empid_not_null'') (report out) = []"
proof -
  from assms obtain df6 df8 where
    df8: "fold_err (outlier_step L) numeric_cols_outliers
            (update_col (map (\<lambda>x. Str (astype_str L x))) ''EmpID'' df6) = Inr df8"
    and rep: "report out = validation_report df8 (rules L)"
    by (auto simp: pipeline_def Let_def validation_report_def split: sum.splits)
  let ?df7 = "update_col (map (\<lambda>x. Str (astype_str L x))) ''EmpID'' df6"
  have df7: "case map_of (columns ?df7) ''EmpID'' of None \<Rightarrow> True | Some xs \<Rightarrow> Null \<notin> set xs"
    by (rule empid_after_astype_str)
  from df8 have "map_of (columns df8) ''EmpID'' = map_of (columns ?df7) ''EmpID''"
    by (rule outlier_steps_keep_empid)
  with df7 have "rule_records df8 (rules L ! 0) = []"
    by (intro empid_rule_silent) simp
  with rep show ?thesis
    by (simp add: empid_records_of_report)
qed

section \<open>Three rows, one repeated identifier, one age out of range\<close>

text \<open>
  C4 as stated fails: of the two rows with \<^verbatim>\<open>EmpID\<close> \<^verbatim>\<open>A\<close> the second is dropped
  before validation, the rule \<^verbatim>\<open>empid_unique\<close> reports nothing, and the report holds
  one record, for the age 80.
\<close>

theorem roster_report_counterexample:
  "pipeline ref_lib roster = Inr \<lparr>interim = roster_clean, final = roster_clean, report = roster_report\<rparr>
   \<and> length (report \<lparr>interim = roster_clean, final = roster_clean, report = roster_report\<rparr>) = 1"
  using pipeline_roster by (simp add: roster_report_def)

lemma sel_map: "map fst (filter snd (zip (map f xs) ks)) = map f (map fst (filter snd (zip xs ks)))"
proof (induction xs arbitrary: ks)
  case Nil
  then show ?case by simp
next
  case (Cons x xs)
  then show ?case by (cases ks) auto
qed

lemma sel_subset: "set (map fst (filter snd (zip xs ks))) \<subseteq> set xs"
  by (auto dest: set_zip_leftD)

lemma sel_distinct_map:
  "distinct (map f xs) \<Longrightarrow> distinct (map f (map fst (filter snd (zip xs ks))))"
proof (induction xs arbitrary: ks)
  case Nil
  then show ?case by simp
next
  case (Cons x xs)
  show ?case
  proof (cases ks)
    case Nil
    then show ?thesis by simp
  next
    case (Cons k ks')
    have "f x \<notin> f ` set (map fst (filter snd (zip xs ks')))"
      using Cons.prems sel_subset [of xs ks'] by auto
    with Cons.prems Cons.IH [of ks'] Cons show ?thesis
      by auto
  qed
qed

lemma sel_distinct: "distinct xs \<Longrightarrow> distinct (map fst (filter snd (zip xs ks)))"
  using sel_distinct_map [of "\<lambda>x. x" xs ks] by simp

lemma first_occurrences_distinct:
  "distinct (map fst (filter snd (zip xs (map Not (duplicated_from seen xs)))))
   \<and> set (map fst (filter snd (zip xs (map Not (duplicated_from seen xs))))) \<inter> set seen = {}"
proof (induction xs arbitrary: seen)
  case Nil
  then show ?case by simp
next
  case (Cons x xs)
  from Cons.IH [of "x # seen"] show ?case
    by auto
qed

lemma duplicated_distinct:
  "distinct xs \<Longrightarrow> set xs \<inter> set seen = {} \<Longrightarrow> list_all Not (duplicated_from seen xs)"
proof (induction xs arbitrary: seen)
  case Nil
  then show ?case by simp
next
  case (Cons x xs)
  from Cons.prems Cons.IH [of "x # seen"] show ?case
    by auto
qed

lemma tracks_setitem:
  assumes "tracks E A S df" and "c \<noteq> ''EmpID''" and "c \<noteq> ''Age''"
  shows "tracks E A S (setitem df c ys)"
  using assms by (simp add: tracks_def map_of_setitem index_setitem)

lemma tracks_update_col:
  assumes "tracks E A S df" and "c \<noteq> ''EmpID''" and "c \<noteq> ''Age''"
  shows "tracks E A S (update_col f c df)"
  using assms by (simp add: update_col_def tracks_setitem split: option.splits)

lemma tracks_impute_mean:
  assumes "tracks E A S df" and "c \<noteq> ''EmpID''" and "c \<noteq> ''Age''"
    and "impute_mean L c df = Inr df'"
  shows "tracks E A S df'"
  using assms by (auto simp: impute_mean_def tracks_setitem split: option.splits sum.splits)

lemma map_of_keep_rows:
  "map_of (columns (keep_rows ks df)) c
     = map_option (\<lambda>xs. map fst (filter snd (zip xs ks))) (map_of (columns df) c)"
  by (simp add: keep_rows_def map_of_map)

lemma tracks_keep_rows:
  assumes "tracks E A S df"
  shows "tracks E A S (keep_rows ks df)"
proof -
  have "index (keep_rows ks df) = map fst (filter snd (zip (index df) ks))"
    by (simp add: keep_rows_def)
  with assms show ?thesis
    using sel_subset [of "index df" ks]
    by (auto simp: tracks_def map_of_keep_rows sel_map sel_distinct)
qed

lemma keep_rows_distinct_ids:
  assumes "distinct (map E (index df))"
  shows "distinct (map E (index (keep_rows ks df)))"
  using sel_distinct_map [OF assms, of ks] by (simp add: keep_rows_def)

lemma tracks_drop_duplicates: "tracks E A S df \<Longrightarrow> tracks E A S (drop_duplicates df)"
  by (simp add: drop_duplicates_def tracks_keep_rows)

lemma tracks_drop_duplicates_subset:
  "tracks E A S df \<Longrightarrow> tracks E A S (drop_duplicates_subset c df)"
  by (simp add: drop_duplicates_subset_def tracks_keep_rows split: option.splits)

lemma drop_duplicates_subset_distinct_ids:
  assumes "distinct (map E (index df))"
  shows "distinct (map E (index (drop_duplicates_subset c df)))"
  using assms by (simp add: drop_duplicates_subset_def keep_rows_distinct_ids split: option.splits)

lemma dedup_empid_distinct:
  assumes "tracks E A S df"
  shows "distinct (map E (index (drop_duplicates_subset ''EmpID'' df)))"
proof -
  let ?xs = "map E (index df)"
  from assms have col: "map_of (columns df) ''EmpID'' = Some ?xs"
    by (simp add: tracks_def)
  have "map E (index (keep_rows (map Not (duplicated ?xs)) df))
          = map fst (filter snd (zip ?xs (map Not (duplicated ?xs))))"
    by (simp add: keep_rows_def sel_map)
  moreover have "distinct (map fst (filter snd (zip ?xs (map Not (duplicated ?xs)))))"
    using first_occurrences_distinct [of ?xs "[]"] by (simp add: duplicated_def)
  ultimately show ?thesis
    using col by (simp add: drop_duplicates_subset_def)
qed

lemma fold_invariant:
  assumes "P d" and "\<And>c d. c \<in> set cs \<Longrightarrow> P d \<Longrightarrow> P (f c d)"
  shows "P (fold f cs d)"
  using assms by (induction cs arbitrary: d) auto

lemma fold_err_invariant:
  assumes "fold_err f cs d = Inr d'" and "P d"
    and "\<And>c d d'. c \<in> set cs \<Longrightarrow> P d \<Longrightarrow> f c d = Inr d' \<Longrightarrow> P d'"
  shows "P d'"
  using assms
proof (induction cs arbitrary: d)
  case Nil
  then show ?case by simp
next
  case (Cons c cs)
  from Cons.prems(1) obtain d1 where d1: "f c d = Inr d1" and rest: "fold_err f cs d1 = Inr d'"
    by (auto split: sum.splits)
  have "P d1"
    using Cons.prems(2) d1 by (intro Cons.prems(3) [of c d d1]) simp_all
  with rest show ?case
    by (intro Cons.IH [of d1]) (auto intro: Cons.prems(3))
qed

lemma tracks_to_numeric:
  assumes "tracks E A S df" and "c \<noteq> ''EmpID''" and "\<forall>i \<in> S. is_Num (A i)"
  shows "tracks E A S (update_col (to_numeric L) c df)"
proof (cases "c = ''Age''")
  case False
  with assms show ?thesis by (simp add: tracks_update_col)
next
  case True
  have "to_numeric L (map A (index df)) = map A (index df)"
  proof -
    have "(case A i of Str s \<Rightarrow> (case to_numeric_str L s of None \<Rightarrow> Null | Some v \<Rightarrow> Num v) | _ \<Rightarrow> A i) = A i"
      if "i \<in> set (index df)" for i
    proof -
      from that assms(1,3) have "is_Num (A i)"
        by (auto simp: tracks_def)
      then show ?thesis by (cases "A i") simp_all
    qed
    then show ?thesis
      by (simp add: to_numeric_def)
  qed
  with assms(1) True show ?thesis
    by (simp add: update_col_def tracks_def map_of_setitem index_setitem)
qed

lemma tracks_astype_str:
  assumes "tracks E A S df"
  shows "tracks (\<lambda>i. Str (astype_str L (E i))) A S
           (update_col (map (\<lambda>x. Str (astype_str L x))) ''EmpID'' df)"
  using assms by (simp add: update_col_def tracks_def map_of_setitem index_setitem)

lemma index_update_col: "index (update_col f c df) = index df"
  by (simp add: update_col_def index_setitem split: option.splits)

lemma tracks_outlier_step:
  assumes "tracks E A S df" and "outlier_step L c df = Inr df'"
  shows "tracks E A S df'"
proof -
  have ne: "c @ ''_outlier'' \<noteq> ''EmpID''" "c @ ''_outlier'' \<noteq> ''Age''"
    by (auto dest: arg_cong [where f = length])
  from assms(2) have "df' = df \<or> (\<exists>ys. df' = setitem df (c @ ''_outlier'') ys)"
    by (auto simp: outlier_step_def detect_outliers_iqr_def Let_def split: if_splits sum.splits)
  with assms(1) ne show ?thesis
    by (auto simp: tracks_setitem)
qed

lemma index_outlier_step: "outlier_step L c df = Inr df' \<Longrightarrow> index df' = index df"
  by (auto simp: outlier_step_def detect_outliers_iqr_def Let_def index_setitem
        split: if_splits sum.splits)

lemma other_columns:
  "c \<in> set numeric_cols_initial \<Longrightarrow> c \<noteq> ''EmpID'' \<and> c \<noteq> ''Age''"
  "c \<in> set text_cols \<Longrightarrow> c \<noteq> ''EmpID'' \<and> c \<noteq> ''Age''"
  "c \<in> set numeric_cols_remaining \<Longrightarrow> c \<noteq> ''EmpID'' \<and> c \<noteq> ''Age''"
  "c \<in> set categorical_columns \<Longrightarrow> c \<noteq> ''EmpID'' \<and> c \<noteq> ''Age''"
  "c \<in> set numeric_columns \<Longrightarrow> c \<noteq> ''EmpID''"
  by (auto simp: numeric_cols_initial_def text_cols_def numeric_cols_remaining_def
        categorical_columns_def numeric_columns_def)

lemma pipeline_stages:
  assumes "pipeline L raw = Inr out"
  obtains df1 df3 where
    "fold_err (impute_mean L) numeric_cols_initial raw = Inr df1"
    and "fold_err (impute_mean L) numeric_cols_remaining (fold impute_text text_cols df1) = Inr df3"
    and "fold_err (outlier_step L) numeric_cols_outliers
           (update_col (map (\<lambda>x. Str (astype_str L x))) ''EmpID''
              (fold (update_col astype_category) categorical_columns
                 (fold (update_col (to_numeric L)) numeric_columns
                    (fold drop_duplicates_subset id_cols (drop_duplicates df3)))))
         = Inr (interim out)"
    and "report out = validation_report (interim out) (rules L)"
  using assms
  by (auto simp: pipeline_def Let_def validation_report_def split: sum.splits)

lemma cleaned_frame:
  assumes run: "pipeline L raw = Inr out"
    and tr: "tracks E A S raw"
    and num: "\<forall>i \<in> S. is_Num (A i)"
    and inj: "inj_on (astype_str L) (E ` S)"
  shows "tracks (\<lambda>i. Str (astype_str L (E i))) A S (interim out)
         \<and> distinct (map (\<lambda>i. Str (astype_str L (E i))) (index (interim out)))
         \<and> report out = validation_report (interim out) (rules L)"
proof -
  let ?E' = "\<lambda>i. Str (astype_str L (E i))"
  from run obtain df1 df3 where
    s1: "fold_err (impute_mean L) numeric_cols_initial raw = Inr df1"
    and s3: "fold_err (impute_mean L) numeric_cols_remaining (fold impute_text text_cols df1) = Inr df3"
    and s8: "fold_err (outlier_step L) numeric_cols_outliers
           (update_col (map (\<lambda>x. Str (astype_str L x))) ''EmpID''
              (fold (update_col astype_category) categorical_columns
                 (fold (update_col (to_numeric L)) numeric_columns
                    (fold drop_duplicates_subset id_cols (drop_duplicates df3)))))
         = Inr (interim out)"
    and rep: "report out = validation_report (interim out) (rules L)"
    by (rule pipeline_stages)
  have t1: "tracks E A S df1"
    using s1 tr
  proof (rule fold_err_invariant)
    fix c d d'
    assume "c \<in> set numeric_cols_initial" "tracks E A S d" "impute_mean L c d = Inr d'"
    then show "tracks E A S d'"
      using tracks_impute_mean other_columns(1) by blast
  qed
  have t2: "tracks E A S (fold impute_text text_cols df1)"
    using t1
  proof (rule fold_invariant)
    fix c d
    assume "c \<in> set text_cols" "tracks E A S d"
    then show "tracks E A S (impute_text c d)"
      using tracks_update_col other_columns(2) by (simp add: impute_text_def)
  qed
  have t3: "tracks E A S df3"
    using s3 t2
  proof (rule fold_err_invariant)
    fix c d d'
    assume "c \<in> set numeric_cols_remaining" "tracks E A S d" "impute_mean L c d = Inr d'"
    then show "tracks E A S d'"
      using tracks_impute_mean other_columns(3) by blast
  qed
  let ?d1 = "drop_duplicates_subset ''EmpID'' (drop_duplicates df3)"
  let ?d4 = "fold drop_duplicates_subset id_cols (drop_duplicates df3)"
  have d4: "?d4 = drop_duplicates_subset ''EmployeeNumber'' ?d1"
    by (simp add: id_cols_def)
  have t4: "tracks E A S ?d4 \<and> distinct (map E (index ?d4))"
    unfolding d4
    using t3
    by (intro conjI tracks_drop_duplicates_subset tracks_drop_duplicates
          drop_duplicates_subset_distinct_ids dedup_empid_distinct)
  let ?d5 = "fold (update_col (to_numeric L)) numeric_columns ?d4"
  have t5: "tracks E A S ?d5 \<and> distinct (map E (index ?d5))"
    using t4
  proof (rule fold_invariant)
    fix c d
    assume "c \<in> set numeric_columns" "tracks E A S d \<and> distinct (map E (index d))"
    then show "tracks E A S (update_col (to_numeric L) c d)
                 \<and> distinct (map E (index (update_col (to_numeric L) c d)))"
      using tracks_to_numeric [OF _ _ num] other_columns(5) by (simp add: index_update_col)
  qed
  let ?d6 = "fold (update_col astype_category) categorical_columns ?d5"
  have t6: "tracks E A S ?d6 \<and> distinct (map E (index ?d6))"
    using t5
  proof (rule fold_invariant)
    fix c d
    assume "c \<in> set categorical_columns" "tracks E A S d \<and> distinct (map E (index d))"
    then show "tracks E A S (update_col astype_category c d)
                 \<and> distinct (map E (index (update_col astype_category c d)))"
      using tracks_update_col other_columns(4) by (simp add: index_update_col)
  qed
  let ?d7 = "update_col (map (\<lambda>x. Str (astype_str L x))) ''EmpID'' ?d6"
  have t7a: "tracks ?E' A S ?d7"
    using t6 by (simp add: tracks_astype_str)
  have idx7: "index ?d7 = index ?d6"
    by (rule index_update_col)
  have sub: "set (index ?d6) \<subseteq> S"
    using t6 by (simp add: tracks_def)
  have "inj_on E (set (index ?d6))" "distinct (index ?d6)"
    using t6 by (simp_all add: distinct_map)
  moreover have "inj_on (\<lambda>x. Str (astype_str L x)) (E ` set (index ?d6))"
    using inj sub by (auto simp: inj_on_def)
  ultimately have "distinct (map ?E' (index ?d6))"
    by (auto simp: distinct_map inj_on_def)
  with t7a idx7 have t7: "tracks ?E' A S ?d7 \<and> distinct (map ?E' (index ?d7))"
    by simp
  have "tracks ?E' A S (interim out) \<and> distinct (map ?E' (index (interim out)))"
    using s8 t7
  proof (rule fold_err_invariant)
    fix c d d'
    assume "tracks ?E' A S d \<and> distinct (map ?E' (index d))" "outlier_step L c d = Inr d'"
    then show "tracks ?E' A S d' \<and> distinct (map ?E' (index d'))"
      using tracks_outlier_step index_outlier_step by metis
  qed
  with rep show ?thesis by simp
qed

lemma length_duplicated_from: "length (duplicated_from seen xs) = length xs"
  by (induction xs arbitrary: seen) simp_all

lemma unique_rule_silent:
  assumes col: "map_of (columns df) ''EmpID'' = Some es" and dist: "distinct es"
  shows "rule_records df (rules L ! 1) = []"
proof -
  have "list_all Not (duplicated es)"
    using duplicated_distinct [OF dist, of "[]"] by (simp add: duplicated_def)
  then have "\<forall>v \<in> set (map (\<lambda>b. Some (\<not> b)) (duplicated es)). v = Some True"
    by (auto simp: list_all_iff)
  then have "not_true_labels (index df) (map (\<lambda>b. Some (\<not> b)) (duplicated es)) = []"
    by (rule not_true_labels_all_true)
  with col show ?thesis
    by (simp add: rule_records_mask rule_mask_def rules_def rule_input_def getitem_def
          on_series_def)
qed

lemma age_range_records:
  assumes col: "map_of (columns df) ''Age'' = Some xs" and len: "length xs = length (index df)"
    and num: "\<not> list_ex is_Str xs"
  shows "length (rule_records df (rules L ! 3)) = length (filter (\<lambda>x. \<not> age_in_range x) xs)"
proof -
  have names: "''Age'' \<in> set (column_names df)"
    using col by (rule map_of_column_names)
  have "rule_mask df (rules L ! 3)
          = Some (map (\<lambda>x. case x of Num v \<Rightarrow> Some (16 \<le> v \<and> v \<le> 70) | _ \<Rightarrow> Some False) xs)"
    using col len num names
    by (simp add: rule_mask_def rules_def rule_input_def getitem_def on_series_def in_range_def
          cmp_scalar_def)
  then have "length (rule_records df (rules L ! 3))
          = length (filter (\<lambda>v. \<not> (v = Some True))
              (map (\<lambda>x. case x of Num v \<Rightarrow> Some (16 \<le> v \<and> v \<le> 70) | _ \<Rightarrow> Some False) xs))"
    by (simp add: length_rule_records)
  also have "\<dots> = length (filter (\<lambda>x. \<not> age_in_range x) xs)"
    by (induction xs) (auto simp: age_in_range_def split: cell.splits)
  finally show ?thesis .
qed

lemma report_by_rule:
  "filter (\<lambda>v. v_rule v = ''empid_unique'') (validation_report df (rules L)) = rule_records df (rules L ! 1)"
  "filter (\<lambda>v. v_rule v = ''age_range'') (validation_report df (rules L)) = rule_records df (rules L ! 3)"
  by (simp_all add: validation_report_concat rules_def filter_rule_records)

lemma length_two_kinds:
  assumes "\<forall>v \<in> set xs. P v \<or> Q v" and "\<And>v. \<not> (P v \<and> Q v)"
  shows "length xs = length (filter P xs) + length (filter Q xs)"
  using assms by (induction xs) auto

lemma count_kept:
  assumes "distinct I" and "distinct J" and "set I \<subseteq> set J"
  shows "length (filter Q I) = length (filter (\<lambda>i. i \<in> set I \<and> Q i) J)"
proof -
  have "{i. Q i} \<inter> set I = {i. i \<in> set I \<and> Q i} \<inter> set J"
    using assms(3) by auto
  with assms(1,2) show ?thesis
    by (simp add: distinct_length_filter)
qed

text \<open>
  C4, as the code has it. Take three rows, with any further columns, whose \<^verbatim>\<open>EmpID\<close>
  values are told apart by \<^verbatim>\<open>astype(str)\<close>, one of them occurring twice, and whose
  \<^verbatim>\<open>Age\<close> values are numbers, one of them outside 16 to 70. In every run that
  completes, a row of the repeated \<^verbatim>\<open>EmpID\<close> is dropped before validation (at most two
  rows are validated), so the report holds no record of \<^verbatim>\<open>empid_unique\<close>; it holds
  one record of \<^verbatim>\<open>age_range\<close> if the row with the age out of range is among the rows
  kept by the deduplication, and none otherwise. When no other rule reports a row, the
  report so holds at most one record, never two.
\<close>

theorem three_row_report:
  assumes idx: "index raw = [0, 1, 2]"
    and emp: "map_of (columns raw) ''EmpID'' = Some [a, b, c]"
    and age: "map_of (columns raw) ''Age'' = Some [Num x, Num y, Num z]"
    and inj: "inj_on (astype_str L) {a, b, c}"
    and dup: "(a = b \<and> b \<noteq> c) \<or> (a = c \<and> b \<noteq> a) \<or> (b = c \<and> a \<noteq> b)"
    and one: "length (filter (\<lambda>v. \<not> (16 \<le> v \<and> v \<le> 70)) [x, y, z]) = 1"
    and run: "pipeline L raw = Inr out"
  shows "filter (\<lambda>v. v_rule v = ''empid_unique'') (report out) = []
         \<and> length (index (interim out)) \<le> 2
         \<and> length (filter (\<lambda>v. v_rule v = ''age_range'') (report out))
             = length (filter (\<lambda>(i, v). i \<in> set (index (interim out)) \<and> \<not> (16 \<le> v \<and> v \<le> 70))
                         (zip [0, 1, 2] [x, y, z]))
         \<and> length (filter (\<lambda>v. v_rule v = ''age_range'') (report out)) \<le> 1
         \<and> ((\<forall>v \<in> set (report out). v_rule v = ''empid_unique'' \<or> v_rule v = ''age_range'')
              \<longrightarrow> length (report out) = length (filter (\<lambda>v. v_rule v = ''age_range'') (report out)))"
proof -
  let ?E = "\<lambda>i. [a, b, c] ! i"
  let ?A = "\<lambda>i. [Num x, Num y, Num z] ! i"
  let ?S = "{0, 1, 2 :: nat}"
  let ?E' = "\<lambda>i. Str (astype_str L (?E i))"
  let ?I = "index (interim out)"
  have tr: "tracks ?E ?A ?S raw"
    by (simp add: tracks_def idx emp age)
  have num: "\<forall>i \<in> ?S. is_Num (?A i)"
    by simp
  have inj': "inj_on (astype_str L) (?E ` ?S)"
    using inj by simp
  from cleaned_frame [OF run tr num inj'] have
    tr8: "tracks ?E' ?A ?S (interim out)"
    and dist8: "distinct (map ?E' ?I)"
    and rep: "report out = validation_report (interim out) (rules L)"
    by simp_all
  from tr8 have empcol: "map_of (columns (interim out)) ''EmpID'' = Some (map ?E' ?I)"
    and agecol: "map_of (columns (interim out)) ''Age'' = Some (map ?A ?I)"
    and distI: "distinct ?I" and subI: "set ?I \<subseteq> ?S"
    by (simp_all add: tracks_def)
  have unique: "filter (\<lambda>v. v_rule v = ''empid_unique'') (report out) = []"
    using unique_rule_silent [OF empcol dist8] by (simp add: rep report_by_rule)
  have two: "length ?I \<le> 2"
  proof -
    from dup obtain i j where ij: "i \<in> ?S" "j \<in> ?S" "i \<noteq> j" "?E' i = ?E' j"
    proof (elim disjE conjE)
      assume "a = b"
      then have "?E' 0 = ?E' 1" by simp
      then show ?thesis using that [of 0 1] by simp
    next
      assume "a = c"
      then have "?E' 0 = ?E' 2" by simp
      then show ?thesis using that [of 0 2] by simp
    next
      assume "b = c"
      then have "?E' 1 = ?E' 2" by simp
      then show ?thesis using that [of 1 2] by simp
    qed
    from dist8 have injI: "inj_on ?E' (set ?I)"
      by (simp add: distinct_map)
    have "\<not> (i \<in> set ?I \<and> j \<in> set ?I)"
    proof
      assume "i \<in> set ?I \<and> j \<in> set ?I"
      with injI ij(4) have "i = j"
        by (blast dest: inj_onD)
      with ij(3) show False by simp
    qed
    with ij(1,2) subI have "set ?I \<subset> ?S"
      by blast
    then have "card (set ?I) < card ?S"
      by (intro psubset_card_mono) simp_all
    moreover have "card (set ?I) = length ?I"
      using distI by (rule distinct_card)
    ultimately show ?thesis by simp
  qed
  have noStr: "\<not> list_ex is_Str (map ?A ?I)"
  proof -
    have "\<not> is_Str (?A i)" if "i \<in> set ?I" for i
    proof -
      from that subI have "i \<in> ?S" by blast
      then show ?thesis by auto
    qed
    then show ?thesis by (simp add: list_ex_iff)
  qed
  have "length (filter (\<lambda>v. v_rule v = ''age_range'') (report out))
          = length (filter (\<lambda>x. \<not> age_in_range x) (map ?A ?I))"
    using age_range_records [OF agecol _ noStr] by (simp add: rep report_by_rule)
  also have "\<dots> = length (filter (\<lambda>i. \<not> age_in_range (?A i)) ?I)"
    by (simp add: filter_map comp_def)
  also have "\<dots> = length (filter (\<lambda>i. i \<in> set ?I \<and> \<not> age_in_range (?A i)) [0, 1, 2])"
    using distI subI by (intro count_kept) simp_all
  also have "\<dots> = length (filter (\<lambda>(i, v). i \<in> set ?I \<and> \<not> (16 \<le> v \<and> v \<le> 70))
                         (zip [0, 1, 2] [x, y, z]))"
    by (simp add: age_in_range_def)
  finally have count: "length (filter (\<lambda>v. v_rule v = ''age_range'') (report out))
          = length (filter (\<lambda>(i, v). i \<in> set ?I \<and> \<not> (16 \<le> v \<and> v \<le> 70))
                         (zip [0, 1, 2] [x, y, z]))" .
  have le: "length (filter (\<lambda>v. v_rule v = ''age_range'') (report out)) \<le> 1"
    unfolding count using one by (auto split: if_splits)
  have total: "length (report out) = length (filter (\<lambda>v. v_rule v = ''age_range'') (report out))"
    if "\<forall>v \<in> set (report out). v_rule v = ''empid_unique'' \<or> v_rule v = ''age_range''"
    using length_two_kinds [OF that] unique by simp
  from unique two count le total show ?thesis
    by blast
qed

lemma pipeline_payroll:
  "pipeline ref_lib payroll
     = Inr \<lparr>interim = payroll_clean, final = payroll_clean, report = roster_report\<rparr>"
  by code_simp

text \<open>
  When the row with the age out of range shares its \<^verbatim>\<open>EmployeeNumber\<close> with an earlier
  row, it is dropped as well and the report is empty.
\<close>

lemma pipeline_payroll_shared:
  "pipeline ref_lib payroll_shared
     = Inr \<lparr>interim = \<lparr>index = [0],
                        columns = [(''EmpID'', [Str ''A'']), (''Age'', [Num 30]),
                                   (''EmployeeNumber'', [Num 7])]\<rparr>,
            final = \<lparr>index = [0],
                      columns = [(''EmpID'', [Str ''A'']), (''Age'', [Num 30]),
                                 (''EmployeeNumber'', [Num 7])]\<rparr>,
            report = []\<rparr>"
  by code_simp

theorem three_row_report_witness:
  "index payroll = [0, 1, 2]
   \<and> map_of (columns payroll) ''EmpID'' = Some [Str ''A'', Str ''A'', Str ''B'']
   \<and> map_of (columns payroll) ''Age'' = Some [Num 30, Num 40, Num 80]
   \<and> inj_on (astype_str ref_lib) {Str ''A'', Str ''A'', Str ''B''}
   \<and> ((Str ''A'' = Str ''A'' \<and> Str ''A'' \<noteq> Str ''B'')
        \<or> (Str ''A'' = Str ''B'' \<and> Str ''A'' \<noteq> Str ''A'')
        \<or> (Str ''A'' = Str ''B'' \<and> Str ''A'' \<noteq> Str ''A''))
   \<and> length (filter (\<lambda>v. \<not> (16 \<le> v \<and> v \<le> 70)) [30, 40, 80 :: rat]) = 1
   \<and> pipeline ref_lib payroll
       = Inr \<lparr>interim = payroll_clean, final = payroll_clean, report = roster_report\<rparr>
   \<and> filter (\<lambda>v. v_rule v = ''empid_unique'') roster_report = []
   \<and> length (index payroll_clean) \<le> 2
   \<and> length (filter (\<lambda>v. v_rule v = ''age_range'') roster_report)
       = length (filter (\<lambda>(i, v). i \<in> set (index payroll_clean) \<and> \<not> (16 \<le> v \<and> v \<le> 70))
                   (zip [0, 1, 2] [30, 40, 80 :: rat]))
   \<and> length (filter (\<lambda>v. v_rule v = ''age_range'') roster_report) \<le> 1
   \<and> length roster_report = length (filter (\<lambda>v. v_rule v = ''age_range'') roster_report)"
proof -
  let ?out = "\<lparr>interim = payroll_clean, final = payroll_clean, report = roster_report\<rparr>"
  have h1: "index payroll = [0, 1, 2]"
    by (simp add: payroll_def)
  have h2: "map_of (columns payroll) ''EmpID'' = Some [Str ''A'', Str ''A'', Str ''B'']"
    by (simp add: payroll_def)
  have h3: "map_of (columns payroll) ''Age'' = Some [Num 30, Num 40, Num 80]"
    by (simp add: payroll_def)
  have h4: "inj_on (astype_str ref_lib) {Str ''A'', Str ''A'', Str ''B''}"
    by (simp add: astype_str_def)
  have h5: "(Str ''A'' = Str ''A'' \<and> Str ''A'' \<noteq> Str ''B'')
        \<or> (Str ''A'' = Str ''B'' \<and> Str ''A'' \<noteq> Str ''A'')
        \<or> (Str ''A'' = Str ''B'' \<and> Str ''A'' \<noteq> Str ''A'')"
    by simp
  have h6: "length (filter (\<lambda>v. \<not> (16 \<le> v \<and> v \<le> 70)) [30, 40, 80 :: rat]) = 1"
    by simp
  have others: "\<forall>v \<in> set (report ?out). v_rule v = ''empid_unique'' \<or> v_rule v = ''age_range''"
    by (simp add: roster_report_def)
  from three_row_report [OF h1 h2 h3 h4 h5 h6 pipeline_payroll] others
  have "filter (\<lambda>v. v_rule v = ''empid_unique'') (report ?out) = []
     \<and> length (index (interim ?out)) \<le> 2
     \<and> length (filter (\<lambda>v. v_rule v = ''age_range'') (report ?out))
         = length (filter (\<lambda>(i, v). i \<in> set (index (interim ?out)) \<and> \<not> (16 \<le> v \<and> v \<le> 70))
                     (zip [0, 1, 2] [30, 40, 80 :: rat]))
     \<and> length (filter (\<lambda>v. v_rule v = ''age_range'') (report ?out)) \<le> 1
     \<and> length (report ?out) = length (filter (\<lambda>v. v_rule v = ''age_range'') (report ?out))"
    by blast
  then have "filter (\<lambda>v. v_rule v = ''empid_unique'') roster_report = []
     \<and> length (index payroll_clean) \<le> 2
     \<and> length (filter (\<lambda>v. v_rule v = ''age_range'') roster_report)
         = length (filter (\<lambda>(i, v). i \<in> set (index payroll_clean) \<and> \<not> (16 \<le> v \<and> v \<le> 70))
                     (zip [0, 1, 2] [30, 40, 80 :: rat]))
     \<and> length (filter (\<lambda>v. v_rule v = ''age_range'') roster_report) \<le> 1
     \<and> length roster_report = length (filter (\<lambda>v. v_rule v = ''age_range'') roster_report)"
    by simp
  with h1 h2 h3 h4 h5 h6 pipeline_payroll show ?thesis
    by blast
qed

end
